theory Spec2Isabelle
  imports Main "HOL-Library.List_Lexorder" "HOL-Library.Char_ord"
begin

section \<open>Python text and errors\<close>

text \<open>
  The validator of \<^verbatim>\<open>src/scribe_data/check/check_query_forms.py\<close> works on Python
  \<^verbatim>\<open>str\<close> values. A text is modelled as a \<^typ>\<open>string\<close>; a \<^typ>\<open>char\<close> stands
  for one code point below 256 (ASCII and the Latin-1 supplement), so the character
  classes below are Python's Unicode classes restricted to that range. Exceptions are
  values of the type \<open>error\<close>; a function that can raise returns \<open>error + 'a\<close>.
\<close>

datatype error = IndexError | KeyError | UnboundLocalError | ReError

definition code :: "char \<Rightarrow> nat" where
  "code c = of_char c"

text \<open>\<^verbatim>\<open>str.isspace\<close> and the class \<^verbatim>\<open>\s\<close> of \<^verbatim>\<open>re\<close>.\<close>

definition is_space :: "char \<Rightarrow> bool" where
  "is_space c = (let n = code c in
     (9 \<le> n \<and> n \<le> 13) \<or> (28 \<le> n \<and> n \<le> 32) \<or> n = 133 \<or> n = 160)"

text \<open>The class \<^verbatim>\<open>\d\<close>: the decimal digits.\<close>

definition is_digit :: "char \<Rightarrow> bool" where
  "is_digit c = (let n = code c in 48 \<le> n \<and> n \<le> 57)"

text \<open>The class \<^verbatim>\<open>\w\<close>: the underscore and every code point with \<^verbatim>\<open>str.isalnum\<close>.\<close>

definition is_word :: "char \<Rightarrow> bool" where
  "is_word c = (let n = code c in
     (48 \<le> n \<and> n \<le> 57) \<or> (65 \<le> n \<and> n \<le> 90) \<or> n = 95 \<or> (97 \<le> n \<and> n \<le> 122)
     \<or> n = 170 \<or> n = 178 \<or> n = 179 \<or> n = 181 \<or> n = 185 \<or> n = 186
     \<or> (188 \<le> n \<and> n \<le> 190) \<or> (192 \<le> n \<and> n \<le> 214) \<or> (216 \<le> n \<and> n \<le> 246)
     \<or> 248 \<le> n)"

text \<open>The wildcard \<^verbatim>\<open>.\<close> without \<^verbatim>\<open>re.DOTALL\<close>: anything but a line feed.\<close>

definition dot :: "char \<Rightarrow> bool" where
  "dot c = (c \<noteq> CHR 0x0A)"

definition any_char :: "char \<Rightarrow> bool" where
  "any_char c = True"

text \<open>\<^verbatim>\<open>str.lower\<close> on one code point below 256.\<close>

definition lower_char :: "char \<Rightarrow> char" where
  "lower_char c = (let n = code c in
     if (65 \<le> n \<and> n \<le> 90) \<or> (192 \<le> n \<and> n \<le> 222 \<and> n \<noteq> 215)
     then char_of (n + 32) else c)"

text \<open>\<^verbatim>\<open>sep.join(xs)\<close>.\<close>

fun join :: "string \<Rightarrow> string list \<Rightarrow> string" where
  "join sep [] = []"
| "join sep [x] = x"
| "join sep (x # y # ys) = x @ sep @ join sep (y # ys)"

text \<open>\<^verbatim>\<open>s.startswith(p)\<close> and the substring test \<^verbatim>\<open>p in s\<close>.\<close>

fun starts_with :: "string \<Rightarrow> string \<Rightarrow> bool" where
  "starts_with s [] = True"
| "starts_with [] (p # ps) = False"
| "starts_with (c # cs) (p # ps) = (c = p \<and> starts_with cs ps)"

fun contains :: "string \<Rightarrow> string \<Rightarrow> bool" where
  "contains [] p = (p = [])"
| "contains (c # cs) p = (starts_with (c # cs) p \<or> contains cs p)"

text \<open>\<^verbatim>\<open>s.strip()\<close>: whitespace removed at both ends.\<close>

definition strip :: "string \<Rightarrow> string" where
  "strip s = rev (dropWhile is_space (rev (dropWhile is_space s)))"

section \<open>The regular expressions of the validator\<close>

text \<open>
  Every pattern of the file is a sequence of single characters, character classes,
  repeated classes (\<^verbatim>\<open>*\<close>, \<^verbatim>\<open>+\<close>, greedy or lazy) and one capturing group. A
  pattern is a list of such items; \<open>Many c n greedy\<close> is the class \<open>c\<close> repeated at
  least \<open>n\<close> times. Matching backtracks the way \<^verbatim>\<open>re\<close> does: a greedy repetition
  tries the longest run first, a lazy one the shortest, and the first alternative under
  which the rest of the pattern matches is the result.
\<close>

datatype item = One "char \<Rightarrow> bool" | Many "char \<Rightarrow> bool" nat bool | GOpen | GClose

text \<open>A match object: \<^verbatim>\<open>match[0]\<close> and the captured groups.\<close>

record match =
  consumed :: string
  groups :: "string list"

primrec first_some :: "('a \<Rightarrow> 'b option) \<Rightarrow> 'a list \<Rightarrow> 'b option" where
  "first_some f [] = None"
| "first_some f (x # xs) = (case f x of Some y \<Rightarrow> Some y | None \<Rightarrow> first_some f xs)"

text \<open>The numbers of repetitions to try, in the order of the attempts.\<close>

definition counts :: "(char \<Rightarrow> bool) \<Rightarrow> nat \<Rightarrow> bool \<Rightarrow> string \<Rightarrow> nat list" where
  "counts c n greedy s =
     (let most = length (takeWhile c s)
      in if greedy then rev [n..<Suc most] else [n..<Suc most])"

text \<open>
  \<open>match_items p s done g caps\<close> matches \<open>p\<close> at the start of \<open>s\<close>; \<open>done\<close> is the
  text matched so far, \<open>g\<close> the text of the group that is open, \<open>caps\<close> the groups
  that are closed.
\<close>

primrec match_items ::
  "item list \<Rightarrow> string \<Rightarrow> string \<Rightarrow> string option \<Rightarrow> string list \<Rightarrow> match option" where
  "match_items [] = (\<lambda>s done g caps. Some \<lparr>consumed = done, groups = caps\<rparr>)"
| "match_items (it # its) = (\<lambda>s done g caps.
     case it of
       One c \<Rightarrow>
         (case s of
            [] \<Rightarrow> None
          | x # xs \<Rightarrow>
              if c x then match_items its xs (done @ [x]) (map_option (\<lambda>a. a @ [x]) g) caps
              else None)
     | Many c n greedy \<Rightarrow>
         first_some
           (\<lambda>k. match_items its (drop k s) (done @ take k s)
                  (map_option (\<lambda>a. a @ take k s) g) caps)
           (counts c n greedy s)
     | GOpen \<Rightarrow> match_items its s done (Some []) caps
     | GClose \<Rightarrow>
         match_items its s done None (case g of Some a \<Rightarrow> caps @ [a] | None \<Rightarrow> caps))"

text \<open>\<^verbatim>\<open>re.match\<close>: a match at the start of the text.\<close>

definition re_match :: "item list \<Rightarrow> string \<Rightarrow> match option" where
  "re_match p s = match_items p s [] None []"

text \<open>\<^verbatim>\<open>re.search\<close>: the match at the leftmost position that has one.\<close>

fun re_search :: "item list \<Rightarrow> string \<Rightarrow> match option" where
  "re_search p [] = re_match p []"
| "re_search p (c # cs) =
     (case re_match p (c # cs) of Some m \<Rightarrow> Some m | None \<Rightarrow> re_search p cs)"

text \<open>
  The matches of \<^verbatim>\<open>re.findall\<close> and \<^verbatim>\<open>re.finditer\<close>, left to right without overlap;
  \<open>skip\<close> counts the characters still covered by the last match. The patterns of the
  file match no empty text.
\<close>

fun find_matches :: "item list \<Rightarrow> nat \<Rightarrow> string \<Rightarrow> match list" where
  "find_matches p skip [] =
     (if skip = 0 then (case re_match p [] of Some m \<Rightarrow> [m] | None \<Rightarrow> []) else [])"
| "find_matches p skip (c # cs) =
     (if skip > 0 then find_matches p (skip - 1) cs
      else case re_match p (c # cs) of
             None \<Rightarrow> find_matches p 0 cs
           | Some m \<Rightarrow> m # find_matches p (length (consumed m) - 1) cs)"

text \<open>\<^verbatim>\<open>match[1]\<close> of a pattern with one group.\<close>

definition group1 :: "match \<Rightarrow> string" where
  "group1 m = (case groups m of [] \<Rightarrow> consumed m | g # gs \<Rightarrow> g)"

definition re_findall :: "item list \<Rightarrow> string \<Rightarrow> string list" where
  "re_findall p s = map group1 (find_matches p 0 s)"

text \<open>A literal piece of a pattern.\<close>

definition lit :: "string \<Rightarrow> item list" where
  "lit s = map (\<lambda>c. One (\<lambda>x. x = c)) s"

text \<open>
  \<^verbatim>\<open>s.split(sep)\<close> for a separator that is not empty: \<open>cur\<close> is the piece being read,
  \<open>skip\<close> the characters of a separator still to pass.
\<close>

fun split_from :: "string \<Rightarrow> nat \<Rightarrow> string \<Rightarrow> string \<Rightarrow> string list" where
  "split_from sep skip cur [] = [cur]"
| "split_from sep skip cur (c # cs) =
     (if skip > 0 then split_from sep (skip - 1) cur cs
      else if starts_with (c # cs) sep then cur # split_from sep (length sep - 1) [] cs
      else split_from sep 0 (cur @ [c]) cs)"

definition split :: "string \<Rightarrow> string \<Rightarrow> string list" where
  "split sep s = split_from sep 0 [] s"

text \<open>
  \<^verbatim>\<open>s.splitlines(keepends=True)\<close>: a line ends at a line feed, a carriage return (with
  the line feed that follows it), a vertical tab, a form feed, a file, group or record
  separator, or a next-line character, and keeps that end.
\<close>

definition is_linebreak :: "char \<Rightarrow> bool" where
  "is_linebreak c = (let n = code c in
     (10 \<le> n \<and> n \<le> 13) \<or> (28 \<le> n \<and> n \<le> 30) \<or> n = 133)"

fun splitlines_from :: "string \<Rightarrow> string \<Rightarrow> string list" where
  "splitlines_from cur [] = (if cur = [] then [] else [cur])"
| "splitlines_from cur [c] = [cur @ [c]]"
| "splitlines_from cur (c # d # ds) =
     (if c = CHR 0x0D \<and> d = CHR 0x0A then (cur @ [c, d]) # splitlines_from [] ds
      else if is_linebreak c then (cur @ [c]) # splitlines_from [] (d # ds)
      else splitlines_from (cur @ [c]) (d # ds))"

definition splitlines :: "string \<Rightarrow> string list" where
  "splitlines s = splitlines_from [] s"

section \<open>The vocabulary resolver\<close>

text \<open>
  \<^verbatim>\<open>lexeme_form_metadata\<close> is loaded from a JSON resource outside the checked file: a
  dictionary from category names to dictionaries from feature names to an entry that
  may hold a \<^verbatim>\<open>"qid"\<close> and a \<^verbatim>\<open>"label"\<close>. It is a parameter of the model, an
  association list in the order of the dictionary.
\<close>

record feature =
  qid :: "string option"
  label :: "string option"

type_synonym metadata = "(string \<times> (string \<times> feature) list) list"

text \<open>The values of all categories, in iteration order.\<close>

definition features :: "metadata \<Rightarrow> feature list" where
  "features md = concat (map (\<lambda>(key, val). map snd val) md)"

text \<open>
  \<^verbatim>\<open>lexeme_form_qid_order\<close>: the \<^verbatim>\<open>"qid"\<close> of every entry that has one, category by
  category.
\<close>

definition lexeme_form_qid_order :: "metadata \<Rightarrow> string list" where
  "lexeme_form_qid_order md =
     concat (map (\<lambda>(key, val).
       concat (map (\<lambda>(sub_key, sub_value).
         (case qid sub_value of Some q \<Rightarrow> [q] | None \<Rightarrow> [])) val)) md)"

text \<open>
  The two inner loops of \<^verbatim>\<open>return_correct_form_label\<close> for one \<^verbatim>\<open>q\<close>: every entry
  is read with \<^verbatim>\<open>qid_label["qid"]\<close>, and \<^verbatim>\<open>qid_label["label"]\<close> is appended where the
  codes agree; a missing key raises \<^verbatim>\<open>KeyError\<close>.
\<close>

fun add_labels :: "string \<Rightarrow> feature list \<Rightarrow> string \<Rightarrow> error + string" where
  "add_labels q [] correct_label = Inr correct_label"
| "add_labels q (qid_label # rest) correct_label =
     (case qid qid_label of
        None \<Rightarrow> Inl KeyError
      | Some c \<Rightarrow>
          if q = c then
            (case label qid_label of
               None \<Rightarrow> Inl KeyError
             | Some l \<Rightarrow> add_labels q rest (correct_label @ l))
          else add_labels q rest correct_label)"

text \<open>The outer loop \<^verbatim>\<open>for q in qids_ordered\<close>.\<close>

fun build_label :: "feature list \<Rightarrow> string list \<Rightarrow> string \<Rightarrow> error + string" where
  "build_label fs [] correct_label = Inr correct_label"
| "build_label fs (q # qs) correct_label =
     (case add_labels q fs correct_label of
        Inl e \<Rightarrow> Inl e
      | Inr correct_label' \<Rightarrow> build_label fs qs correct_label')"

text \<open>\<^verbatim>\<open>correct_label[:1].lower() + correct_label[1:]\<close>.\<close>

definition lower_first :: "string \<Rightarrow> string" where
  "lower_first s = map lower_char (take 1 s) @ drop 1 s"

text \<open>
  \<^verbatim>\<open>return_correct_form_label(qids)\<close>. The argument is \<open>None\<close> when the caller passes
  Python's \<^verbatim>\<open>None\<close> (what \<^verbatim>\<open>extract_form_qids\<close> returns without a match), which
  \<^verbatim>\<open>not qids\<close> treats as the empty list. \<^verbatim>\<open>sorted(set(qids) - set(order))\<close> is the
  sorted list of the distinct codes that are not in the order.
\<close>

definition return_correct_form_label :: "metadata \<Rightarrow> string list option \<Rightarrow> error + string" where
  "return_correct_form_label md qids_arg =
     (case qids_arg of
        None \<Rightarrow> Inr ''Invalid query formatting found''
      | Some qids \<Rightarrow>
          if qids = [] then Inr ''Invalid query formatting found''
          else if \<not> set qids \<subseteq> set (lexeme_form_qid_order md) then
            (let not_included_qids =
                   sort (remdups (filter (\<lambda>q. q \<notin> set (lexeme_form_qid_order md)) qids));
                 qid_label = (if length not_included_qids > 1 then ''QIDs'' else ''QID'')
             in Inr (qid_label @ '' '' @ join '', '' not_included_qids
                       @ '' not included in lexeme_form.metadata.json''))
          else
            (let qids_ordered = filter (\<lambda>q. q \<in> set qids) (lexeme_form_qid_order md)
             in case build_label (features md) qids_ordered [] of
                  Inl e \<Rightarrow> Inl e
                | Inr correct_label \<Rightarrow> Inr (lower_first correct_label)))"

text \<open>
  For stating the result: a vocabulary is complete when every entry has a code and a
  label, and the fragment of a code is the labels of the entries that carry it.
\<close>

definition complete :: "metadata \<Rightarrow> bool" where
  "complete md = list_all (\<lambda>f. qid f \<noteq> None \<and> label f \<noteq> None) (features md)"

definition fragment :: "feature list \<Rightarrow> string \<Rightarrow> string" where
  "fragment fs q =
     concat (map (\<lambda>f. case label f of None \<Rightarrow> [] | Some l \<Rightarrow> l)
                 (filter (\<lambda>f. qid f = Some q) fs))"

section \<open>The checks on one form block\<close>

text \<open>
  \<^verbatim>\<open>extract_forms_from_sparql\<close>, on the text read from the file: the inner text of
  every \<^verbatim>\<open>\s\sOPTIONAL\s*\{([^}]*)\}\<close>.
\<close>

definition optional_pattern :: "item list" where
  "optional_pattern =
     [One is_space, One is_space] @ lit ''OPTIONAL'' @ [Many is_space 0 True] @ lit ''{''
     @ [GOpen, Many (\<lambda>c. c \<noteq> CHR ''}'') 0 True, GClose] @ lit ''}''"

definition extract_forms_from_sparql :: "string \<Rightarrow> string list" where
  "extract_forms_from_sparql query_text = re_findall optional_pattern query_text"

text \<open>\<^verbatim>\<open>ontolex:representation .* ;\<close> and \<^verbatim>\<open>.*\?(.*);\<close>.\<close>

definition onto_rep_pattern :: "item list" where
  "onto_rep_pattern = lit ''ontolex:representation '' @ [Many dot 0 True] @ lit '' ;''"

definition rep_label_pattern :: "item list" where
  "rep_label_pattern =
     [Many dot 0 True] @ lit ''?'' @ [GOpen, Many dot 0 True, GClose] @ lit '';''"

text \<open>\<^verbatim>\<open>extract_form_rep_label\<close>; \<open>None\<close> is Python's \<^verbatim>\<open>None\<close>.\<close>

definition extract_form_rep_label :: "string \<Rightarrow> string option" where
  "extract_form_rep_label form_text =
     (case re_search onto_rep_pattern form_text of
        None \<Rightarrow> None
      | Some line_match \<Rightarrow>
          (case re_search rep_label_pattern (consumed line_match) of
             None \<Rightarrow> None
           | Some label_match \<Rightarrow> Some (strip (group1 label_match))))"

text \<open>\<^verbatim>\<open>wikibase:grammaticalFeature .+ \.\<close>\<close>

definition qids_pattern :: "item list" where
  "qids_pattern = lit ''wikibase:grammaticalFeature '' @ [Many dot 1 True] @ lit '' .''"

text \<open>\<^verbatim>\<open>q.split("wd:")[1].split(" .")[0]\<close>; the index 1 raises on a single piece.\<close>

definition qid_of_piece :: "string \<Rightarrow> error + string" where
  "qid_of_piece q =
     (case split ''wd:'' q of
        a # b # rest \<Rightarrow>
          (case split '' .'' b of [] \<Rightarrow> Inl IndexError | x # xs \<Rightarrow> Inr x)
      | _ \<Rightarrow> Inl IndexError)"

text \<open>A list comprehension over a function that can raise.\<close>

fun map_raise :: "('a \<Rightarrow> error + 'b) \<Rightarrow> 'a list \<Rightarrow> error + 'b list" where
  "map_raise f [] = Inr []"
| "map_raise f (x # xs) =
     (case f x of
        Inl e \<Rightarrow> Inl e
      | Inr y \<Rightarrow> (case map_raise f xs of Inl e \<Rightarrow> Inl e | Inr ys \<Rightarrow> Inr (y # ys)))"

definition extract_form_qids :: "string \<Rightarrow> error + string list option" where
  "extract_form_qids form_text =
     (case re_search qids_pattern form_text of
        None \<Rightarrow> Inr None
      | Some m \<Rightarrow>
          (case map_raise qid_of_piece (split '', '' (consumed m)) of
             Inl e \<Rightarrow> Inl e
           | Inr qs \<Rightarrow> Inr (Some qs)))"

text \<open>\<^verbatim>\<open>\?lexeme ontolex:lexicalForm .* \.\<close> and \<^verbatim>\<open>.*\?(.*)\.\<close>.\<close>

definition form_label_line_pattern :: "item list" where
  "form_label_line_pattern =
     lit ''?lexeme ontolex:lexicalForm '' @ [Many dot 0 True] @ lit '' .''"

definition form_label_pattern :: "item list" where
  "form_label_pattern =
     [Many dot 0 True] @ lit ''?'' @ [GOpen, Many dot 0 True, GClose] @ lit ''.''"

text \<open>
  The second search of \<^verbatim>\<open>check_form_label\<close> runs a pattern built at run time, the
  form label followed by \<^verbatim>\<open> ontolex:representation .* ;\<close>, so the label is read as a
  regular expression. A label without any of the characters that \<^verbatim>\<open>re\<close> reads as
  syntax stands for itself. For the other labels the outcome of \<^verbatim>\<open>re.search\<close> (a
  match, none, or \<^verbatim>\<open>re.error\<close>) is the parameter \<open>other\<close>, applied to the pattern text
  and the searched text.
\<close>

type_synonym text_search = "string \<Rightarrow> string \<Rightarrow> error + match option"

definition is_special :: "char \<Rightarrow> bool" where
  "is_special c = (c \<in> set (''.^$*+?{}[]|()'' @ [CHR 0x5C]))"

definition search_onto_rep :: "text_search \<Rightarrow> string \<Rightarrow> string \<Rightarrow> error + match option" where
  "search_onto_rep other form_label form_text =
     (if list_ex is_special form_label
      then other (form_label @ '' ontolex:representation .* ;'') form_text
      else Inr (re_search (lit form_label @ lit '' '' @ onto_rep_pattern) form_text))"

text \<open>
  \<^verbatim>\<open>check_form_label\<close>. The names bound inside an \<^verbatim>\<open>if\<close> are \<open>None\<close> while
  unbound, and reading them then raises \<^verbatim>\<open>UnboundLocalError\<close>.
\<close>

definition check_form_label :: "text_search \<Rightarrow> string \<Rightarrow> error + bool" where
  "check_form_label other form_text =
     (let line_match = re_search form_label_line_pattern form_text;
          label_match =
            (case line_match of
               None \<Rightarrow> None
             | Some lm \<Rightarrow> re_search form_label_pattern (consumed lm));
          form_label = map_option (\<lambda>m. strip (group1 m)) label_match;
          current_form_rep_label =
            map_option (\<lambda>l. case split ''Form'' l of [] \<Rightarrow> l | x # xs \<Rightarrow> x) form_label
      in if line_match = None then Inr False
         else case form_label of
           None \<Rightarrow> Inl UnboundLocalError
         | Some fl \<Rightarrow>
             (case search_onto_rep other fl form_text of
                Inl e \<Rightarrow> Inl e
              | Inr None \<Rightarrow> Inr False
              | Inr (Some line_match2) \<Rightarrow>
                  (case re_search rep_label_pattern (consumed line_match2) of
                     None \<Rightarrow> Inl UnboundLocalError
                   | Some label_match2 \<Rightarrow>
                       Inr (Some (strip (group1 label_match2)) = current_form_rep_label))))"

text \<open>\<^verbatim>\<open>check_query_formatting\<close>: \<^verbatim>\<open>\s,\<close> and \<^verbatim>\<open>\S[.;]\<close>.\<close>

definition check_query_formatting :: "string \<Rightarrow> bool" where
  "check_query_formatting form_text =
     (if re_search [One is_space, One (\<lambda>c. c = CHR '','')] form_text \<noteq> None then False
      else if re_search [One (\<lambda>c. \<not> is_space c), One (\<lambda>c. c = CHR ''.'' \<or> c = CHR '';'')]
                form_text \<noteq> None then False
      else True)"

section \<open>The variables of the SELECT and WHERE clauses\<close>

text \<open>
  \<^verbatim>\<open>SELECT\s+(.*?)\s+WHERE\<close> under \<^verbatim>\<open>re.DOTALL\<close>, \<^verbatim>\<open>\?(\w+)\<close>,
  \<^verbatim>\<open>WHERE\s*\{[^}]*?wikibase:lemma\s*\?\s*(\w+)\s*[;.]\s*\<close> and
  \<^verbatim>\<open>ontolex:representation \?([^ ;]+)\<close>.
\<close>

definition select_pattern :: "item list" where
  "select_pattern =
     lit ''SELECT'' @ [Many is_space 1 True, GOpen, Many any_char 0 False, GClose,
       Many is_space 1 True] @ lit ''WHERE''"

definition var_pattern :: "item list" where
  "var_pattern = lit ''?'' @ [GOpen, Many is_word 1 True, GClose]"

definition dt_pattern :: "item list" where
  "dt_pattern =
     lit ''WHERE'' @ [Many is_space 0 True] @ lit ''{''
     @ [Many (\<lambda>c. c \<noteq> CHR ''}'') 0 False] @ lit ''wikibase:lemma''
     @ [Many is_space 0 True] @ lit ''?''
     @ [Many is_space 0 True, GOpen, Many is_word 1 True, GClose, Many is_space 0 True,
        One (\<lambda>c. c = CHR '';'' \<or> c = CHR ''.''), Many is_space 0 True]"

definition forms_pattern :: "item list" where
  "forms_pattern =
     lit ''ontolex:representation ?''
     @ [GOpen, Many (\<lambda>c. c \<noteq> CHR '' '' \<and> c \<noteq> CHR '';'') 1 True, GClose]"

text \<open>
  \<^verbatim>\<open>select_vars\<close> after \<^verbatim>\<open>select_vars = select_vars[2:]\<close>; \<open>None\<close> when the text
  has no \<^verbatim>\<open>SELECT ... WHERE\<close>.
\<close>

definition select_vars_of :: "string \<Rightarrow> string list option" where
  "select_vars_of query_text =
     (case re_search select_pattern query_text of
        None \<Rightarrow> None
      | Some select_match \<Rightarrow> Some (drop 2 (re_findall var_pattern (group1 select_match))))"

text \<open>\<^verbatim>\<open>where_vars\<close> before the loop over the variables of the labeling service.\<close>

definition where_vars_of :: "string \<Rightarrow> string list" where
  "where_vars_of query_text =
     (let dt_match = re_findall dt_pattern query_text
      in (if dt_match = [''lemma''] then [''preposition'']
          else case dt_match of [] \<Rightarrow> [] | x # xs \<Rightarrow> [x])
         @ re_findall forms_pattern query_text)"

text \<open>\<^verbatim>\<open>xs.index(v)\<close> for a \<open>v\<close> that is in \<open>xs\<close>, and \<^verbatim>\<open>xs.insert(i, v)\<close>.\<close>

definition index_of :: "'a list \<Rightarrow> 'a \<Rightarrow> nat" where
  "index_of xs v = length (takeWhile (\<lambda>x. x \<noteq> v) xs)"

definition list_insert :: "nat \<Rightarrow> 'a \<Rightarrow> 'a list \<Rightarrow> 'a list" where
  "list_insert i v xs = take i xs @ v # drop i xs"

text \<open>One round of the loop \<^verbatim>\<open>for var in ["case", "gender", "auxiliaryVerb"]\<close>.\<close>

definition insert_var :: "string list \<Rightarrow> string \<Rightarrow> string list \<Rightarrow> string list" where
  "insert_var select_vars var where_vars =
     (if var \<in> set select_vars
      then list_insert (index_of select_vars var) var where_vars
      else where_vars)"

definition insert_service_vars :: "string list \<Rightarrow> string list \<Rightarrow> string list" where
  "insert_service_vars select_vars where_vars =
     fold (insert_var select_vars) [''case'', ''gender'', ''auxiliaryVerb''] where_vars"

text \<open>
  The order in which \<^verbatim>\<open>', '.join(set(duplicates))\<close> meets the elements of the set is
  not fixed by the language; it is the parameter \<open>iter\<close>, from the list the set is
  built from to the elements as they are iterated.
\<close>

type_synonym set_iteration = "string list \<Rightarrow> string list"

definition set_iteration_ok :: "set_iteration \<Rightarrow> bool" where
  "set_iteration_ok iter = (\<forall>xs. distinct (iter xs) \<and> set (iter xs) = set xs)"

definition not_lexeme :: "string \<Rightarrow> bool" where
  "not_lexeme var = (var \<notin> set [''lexeme'', ''lexemeID''])"

text \<open>The checks of \<^verbatim>\<open>validate_forms\<close> from line 288 on.\<close>

definition check_vars :: "set_iteration \<Rightarrow> string list \<Rightarrow> string list \<Rightarrow> string" where
  "check_vars iter select_vars0 where_vars0 =
     (let uniqueness_forms_check = (length select_vars0 \<noteq> length (remdups select_vars0));
          undefined_forms = remdups (filter (\<lambda>v. v \<notin> set where_vars0) select_vars0);
          unreturned_forms = remdups (filter (\<lambda>v. v \<notin> set select_vars0) where_vars0);
          select_vars = filter not_lexeme select_vars0;
          where_vars = filter not_lexeme where_vars0
      in if uniqueness_forms_check then
           ''Duplicate forms found in SELECT: ''
           @ join '', '' (iter (filter (\<lambda>var. count_list select_vars var > 1) select_vars))
         else if undefined_forms \<noteq> [] then
           ''Undefined forms found in SELECT: '' @ join '', '' (sort undefined_forms)
         else if unreturned_forms \<noteq> [] then
           ''Defined but unreturned forms found: '' @ join '', '' (sort unreturned_forms)
         else if select_vars \<noteq> where_vars then
           ''The order of variables in the SELECT statement does not match their order in the WHERE clause.''
         else [])"

definition validate_forms :: "set_iteration \<Rightarrow> string \<Rightarrow> string" where
  "validate_forms iter query_text =
     (case select_vars_of query_text of
        None \<Rightarrow> ''Invalid query format: no SELECT match''
      | Some select_vars \<Rightarrow>
          check_vars iter select_vars
            (insert_service_vars select_vars (where_vars_of query_text)))"

section \<open>The header check\<close>

text \<open>The three patterns of \<^verbatim>\<open>check_docstring\<close>, each with its error prefix.\<close>

definition line1_pattern :: "item list" where
  "line1_pattern = lit (''# tool: scribe-data'' @ [CHR 0x0A])"

definition line2_pattern :: "item list" where
  "line2_pattern =
     lit ''# All '' @ [GOpen, Many dot 1 False, GClose] @ lit '' (Q'' @ [Many is_digit 1 True]
     @ lit '') '' @ [Many dot 1 True] @ lit '' (Q'' @ [Many is_digit 1 True]
     @ lit ('') and the given forms.'' @ [CHR 0x0A])"

definition line3_pattern :: "item list" where
  "line3_pattern = lit (''# Enter this query at https://query.wikidata.org/.'' @ [CHR 0x0A])"

definition patterns :: "(item list \<times> string) list" where
  "patterns = [(line1_pattern, ''Error in line 1:''), (line2_pattern, ''Error in line 2:''),
               (line3_pattern, ''Error in line 3:'')]"

text \<open>
  The result of \<^verbatim>\<open>check_docstring\<close>: \<^verbatim>\<open>True\<close>, or the pair of \<^verbatim>\<open>False\<close> and a
  message.
\<close>

datatype docstring_check = Passed | Failed string

text \<open>
  \<^verbatim>\<open>next\<close> over the generator: the patterns are tried in order from index \<open>i\<close>, the
  line \<^verbatim>\<open>query_lines[i]\<close> is read for each (\<^verbatim>\<open>IndexError\<close> when there is none), and
  the first line without a match ends the search.
\<close>

fun first_mismatch ::
  "(item list \<times> string) list \<Rightarrow> nat \<Rightarrow> string list \<Rightarrow> error + docstring_check" where
  "first_mismatch [] i query_lines = Inr Passed"
| "first_mismatch ((pattern, error_line_number) # rest) i query_lines =
     (if i < length query_lines then
        (if re_match pattern (query_lines ! i) = None
         then Inr (Failed (error_line_number @ '' '' @ strip (query_lines ! i)))
         else first_mismatch rest (Suc i) query_lines)
      else Inl IndexError)"

definition check_docstring :: "string \<Rightarrow> error + docstring_check" where
  "check_docstring query_text = first_mismatch patterns 0 (splitlines query_text)"

text \<open>Whether \<^verbatim>\<open>re.match\<close> finds the pattern of index \<open>k\<close> in a line.\<close>

definition matches_template :: "nat \<Rightarrow> string \<Rightarrow> bool" where
  "matches_template k line = (re_match (fst (patterns ! k)) line \<noteq> None)"

section \<open>The form blocks of one file\<close>

text \<open>The dictionary stored for one form block.\<close>

record form_check =
  form_rep_match :: bool
  correct_formatting :: bool
  qids :: "string list option"
  correct_form_rep_label :: string

text \<open>
  \<^verbatim>\<open>query_form_check_dict\<close> is a dictionary in insertion order; its keys are the
  representation labels, \<open>None\<close> for Python's \<^verbatim>\<open>None\<close>. \<open>dict_set d k v\<close> is
  \<^verbatim>\<open>d[k] = v\<close>.
\<close>

type_synonym check_dict = "(string option \<times> form_check) list"

fun dict_set :: "('k \<times> 'v) list \<Rightarrow> 'k \<Rightarrow> 'v \<Rightarrow> ('k \<times> 'v) list" where
  "dict_set [] k v = [(k, v)]"
| "dict_set ((k', v') # d) k v =
     (if k' = k then (k, v) # d else (k', v') # dict_set d k v)"

definition is_form_block :: "string \<Rightarrow> bool" where
  "is_form_block form_text =
     (contains form_text ''ontolex:lexicalForm'' \<and> contains form_text ''ontolex:representation'')"

text \<open>The body of the loop over the form blocks, lines 398 to 409.\<close>

definition check_block ::
  "metadata \<Rightarrow> text_search \<Rightarrow> string \<Rightarrow> error + (string option \<times> form_check)" where
  "check_block md other form_text =
     (let formatting = check_query_formatting form_text;
          form_rep_label = extract_form_rep_label form_text
      in case check_form_label other form_text of
           Inl e \<Rightarrow> Inl e
         | Inr check \<Rightarrow>
             (case extract_form_qids form_text of
                Inl e \<Rightarrow> Inl e
              | Inr qs \<Rightarrow>
                  (case return_correct_form_label md qs of
                     Inl e \<Rightarrow> Inl e
                   | Inr correct \<Rightarrow>
                       Inr (form_rep_label,
                            \<lparr>form_rep_match = check, correct_formatting = formatting,
                             qids = qs, correct_form_rep_label = correct\<rparr>))))"

fun collect_checks ::
  "metadata \<Rightarrow> text_search \<Rightarrow> string list \<Rightarrow> check_dict \<Rightarrow> error + check_dict" where
  "collect_checks md other [] d = Inr d"
| "collect_checks md other (form_text # rest) d =
     (if is_form_block form_text then
        (case check_block md other form_text of
           Inl e \<Rightarrow> Inl e
         | Inr (k, v) \<Rightarrow> collect_checks md other rest (dict_set d k v))
      else collect_checks md other rest d)"

definition query_form_check_dict :: "metadata \<Rightarrow> text_search \<Rightarrow> string \<Rightarrow> error + check_dict" where
  "query_form_check_dict md other query_text =
     collect_checks md other (extract_forms_from_sparql query_text) []"

text \<open>
  The entry of \<^verbatim>\<open>incorrect_query_labels\<close> for one item of the dictionary. The first
  test, \<^verbatim>\<open>k != v["correct_formatting"] is False\<close>, is a chained comparison whose first
  part compares a label with a boolean and holds always.
\<close>

definition label_problem :: "string option \<times> form_check \<Rightarrow> (string option \<times> string) list" where
  "label_problem kv =
     (case kv of (k, v) \<Rightarrow>
        if \<not> correct_formatting v then
          [(k, ''Invalid query formatting found - please put spaces before all periods and semicolons and also remove spaces before commas.'')]
        else if k \<noteq> Some (correct_form_rep_label v) then [(k, correct_form_rep_label v)]
        else if \<not> form_rep_match v then [(k, ''Form and representation labels don't match'')]
        else [])"

definition incorrect_query_labels :: "check_dict \<Rightarrow> (string option \<times> string) list" where
  "incorrect_query_labels d = concat (map label_problem d)"

section \<open>Sample inputs\<close>

text \<open>A small vocabulary of two categories in the shape of the JSON resource.\<close>

definition sample_metadata :: metadata where
  "sample_metadata =
     [(''number'', [(''singular'', \<lparr>qid = Some ''Q110786'', label = Some ''Singular''\<rparr>),
                    (''plural'', \<lparr>qid = Some ''Q146786'', label = Some ''Plural''\<rparr>)]),
      (''case'', [(''nominative'', \<lparr>qid = Some ''Q131105'', label = Some ''Nominative''\<rparr>)])]"

text \<open>One admissible order of iteration over a set: ascending.\<close>

definition sorted_iteration :: set_iteration where
  "sorted_iteration xs = sort (remdups xs)"

text \<open>A header that follows the convention, and one whose second line does not.\<close>

definition sample_header :: string where
  "sample_header = ''# tool: scribe-data\<newline># All German (Q188) nouns (Q1084) and the given forms.\<newline># Enter this query at https://query.wikidata.org/.\<newline>''"

definition sample_bad_header :: string where
  "sample_bad_header = ''# tool: scribe-data\<newline>#  All German nouns. \<newline>''"

text \<open>Query texts for the checks on the variables.\<close>

definition dup_query :: string where
  "dup_query = ''SELECT ?lexeme ?lexemeID ?singular ?singular ?plural ?plural WHERE''"

definition lexeme_query :: string where
  "lexeme_query = ''SELECT ?lexeme ?lexemeID ?lexeme WHERE''"

definition shifted_query :: string where
  "shifted_query = ''SELECT ?lexeme ?lexemeID ?auxiliaryVerb ?a ?gender ?b WHERE { ?x ontolex:representation ?a ; ?y ontolex:representation ?b ; }''"

definition gender_query :: string where
  "gender_query = ''SELECT ?lexeme ?lexemeID ?noun ?plural ?gender WHERE { ?lexeme wikibase:lemma ?noun . ?f ontolex:representation ?plural ; }''"



definition case_after_query :: string where
  "case_after_query = ''SELECT ?lexeme ?lexemeID ?noun ?gender ?plural ?case ?dative WHERE { ?lexeme wikibase:lemma ?noun . ?f ontolex:representation ?plural ; ?g ontolex:representation ?dative ; }''"

definition case_before_query :: string where
  "case_before_query = ''SELECT ?lexeme ?lexemeID ?noun ?case ?plural ?gender ?dative WHERE { ?lexeme wikibase:lemma ?noun . ?f ontolex:representation ?plural ; ?g ontolex:representation ?dative ; }''"

definition singular_query :: string where
  "singular_query = ''SELECT ?lexeme ?lexemeID ?singular ?singular ?plural WHERE''"

definition undefined_query :: string where
  "undefined_query = ''SELECT ?lexeme ?lexemeID ?noun ?plural WHERE { ?lexeme wikibase:lemma ?noun . }''"

text \<open>
  Two form blocks with the same representation label and different features, and a
  query text that holds both.
\<close>

definition first_block :: string where
  "first_block = ''\<newline> ?lexeme ontolex:lexicalForm ?pluralForm .\<newline> ?pluralForm ontolex:representation ?plural ;\<newline> wikibase:grammaticalFeature wd:Q110786 .\<newline>  ''"

definition second_block :: string where
  "second_block = ''\<newline> ?lexeme ontolex:lexicalForm ?pluralForm .\<newline> ?pluralForm ontolex:representation ?plural ;\<newline> wikibase:grammaticalFeature wd:Q146786 .\<newline>  ''"

definition twice_query :: string where
  "twice_query = ''WHERE {\<newline>  OPTIONAL {'' @ first_block @ ''}\<newline>  OPTIONAL {''
     @ second_block @ ''}\<newline>}''"

text \<open>A search for the pattern texts with special characters; the samples have none.\<close>

definition no_other :: text_search where
  "no_other pattern_text s = Inl ReError"

section \<open>Properties of the vocabulary resolver\<close>

text \<open>
  C8: \<^verbatim>\<open>return_correct_form_label\<close> applied to an empty code collection returns
  exactly the literal string "Invalid query formatting found", whatever the vocabulary.
\<close>

theorem return_correct_form_label_empty:
  "return_correct_form_label md (Some []) = Inr ''Invalid query formatting found''"
  by (simp add: return_correct_form_label_def)

lemma add_labels_complete:
  "list_all (\<lambda>f. qid f \<noteq> None \<and> label f \<noteq> None) fs
     \<Longrightarrow> add_labels q fs acc = Inr (acc @ fragment fs q)"
proof (induction fs arbitrary: acc)
  case Nil
  then show ?case by (simp add: fragment_def)
next
  case (Cons f fs)
  obtain c l where c: "qid f = Some c" and l: "label f = Some l"
    using Cons.prems by auto
  have "\<And>acc. add_labels q fs acc = Inr (acc @ fragment fs q)"
    using Cons.IH Cons.prems by simp
  then show ?case using c l by (auto simp: fragment_def)
qed

lemma build_label_complete:
  "list_all (\<lambda>f. qid f \<noteq> None \<and> label f \<noteq> None) fs
     \<Longrightarrow> build_label fs qs acc = Inr (acc @ concat (map (fragment fs) qs))"
proof (induction qs arbitrary: acc)
  case Nil
  then show ?case by simp
next
  case (Cons q qs)
  then show ?case by (simp add: add_labels_complete)
qed

lemma resolve_complete:
  assumes "set qs \<subseteq> set (lexeme_form_qid_order md)" and "complete md" and "qs \<noteq> []"
  shows "return_correct_form_label md (Some qs)
       = Inr (lower_first (concat (map (fragment (features md))
                (filter (\<lambda>q. q \<in> set qs) (lexeme_form_qid_order md)))))"
  using assms
  by (simp add: return_correct_form_label_def complete_def build_label_complete)


text \<open>
  C1: for every list of feature codes that all occur in the flattened code order of the
  vocabulary, the label does not depend on the order of the list: two lists with the
  same set of codes (so any two permutations of one list) give the same result. The
  codes are taken in the order of the vocabulary: for a complete vocabulary and a list
  that is not empty, the result is the fragments of the codes of the list, joined in
  the order of the vocabulary, with the first character in lower case.
\<close>

theorem return_correct_form_label_order_independent:
  assumes "set qs \<subseteq> set (lexeme_form_qid_order md)" and "set qs' = set qs"
  shows "return_correct_form_label md (Some qs') = return_correct_form_label md (Some qs)
     \<and> (complete md \<and> qs \<noteq> []
          \<longrightarrow> return_correct_form_label md (Some qs)
                = Inr (lower_first (concat (map (fragment (features md))
                         (filter (\<lambda>q. q \<in> set qs) (lexeme_form_qid_order md))))))"
proof (intro conjI impI)
  have "(qs' = []) = (qs = [])"
    using assms(2) by (metis set_empty)
  moreover have "filter (\<lambda>q. q \<in> set qs') (lexeme_form_qid_order md)
      = filter (\<lambda>q. q \<in> set qs) (lexeme_form_qid_order md)"
    using assms(2) by simp
  ultimately show "return_correct_form_label md (Some qs')
      = return_correct_form_label md (Some qs)"
    using assms by (simp add: return_correct_form_label_def)
next
  assume "complete md \<and> qs \<noteq> []"
  then show "return_correct_form_label md (Some qs)
      = Inr (lower_first (concat (map (fragment (features md))
               (filter (\<lambda>q. q \<in> set qs) (lexeme_form_qid_order md)))))"
    using resolve_complete [OF assms(1)] by simp
qed

text \<open>The codes of "nominative" and "singular" in both orders.\<close>

theorem return_correct_form_label_order_independent_witness:
  "set [''Q131105'', ''Q110786''] \<subseteq> set (lexeme_form_qid_order sample_metadata)
   \<and> set [''Q110786'', ''Q131105''] = set [''Q131105'', ''Q110786'']
   \<and> complete sample_metadata \<and> [''Q131105'', ''Q110786''] \<noteq> []
   \<and> return_correct_form_label sample_metadata (Some [''Q110786'', ''Q131105''])
       = return_correct_form_label sample_metadata (Some [''Q131105'', ''Q110786''])
   \<and> return_correct_form_label sample_metadata (Some [''Q131105'', ''Q110786''])
       = Inr (lower_first (concat (map (fragment (features sample_metadata))
                (filter (\<lambda>q. q \<in> set [''Q131105'', ''Q110786''])
                   (lexeme_form_qid_order sample_metadata)))))
   \<and> return_correct_form_label sample_metadata (Some [''Q131105'', ''Q110786''])
       = Inr ''singularNominative''"
proof -
  have h1: "set [''Q131105'', ''Q110786''] \<subseteq> set (lexeme_form_qid_order sample_metadata)"
    by code_simp
  have h2: "set [''Q110786'', ''Q131105''] = set [''Q131105'', ''Q110786'']"
    by auto
  have h3: "complete sample_metadata \<and> [''Q131105'', ''Q110786''] \<noteq> []"
    by code_simp
  have v: "return_correct_form_label sample_metadata (Some [''Q131105'', ''Q110786''])
       = Inr ''singularNominative''"
    by code_simp
  note t = return_correct_form_label_order_independent [OF h1 h2]
  have a: "return_correct_form_label sample_metadata (Some [''Q110786'', ''Q131105''])
       = return_correct_form_label sample_metadata (Some [''Q131105'', ''Q110786''])"
    using t by (rule conjunct1)
  have b: "return_correct_form_label sample_metadata (Some [''Q131105'', ''Q110786''])
       = Inr (lower_first (concat (map (fragment (features sample_metadata))
                (filter (\<lambda>q. q \<in> set [''Q131105'', ''Q110786''])
                   (lexeme_form_qid_order sample_metadata)))))"
    using t h3 by blast
  have h3a: "complete sample_metadata" and h3b: "[''Q131105'', ''Q110786''] \<noteq> []"
    using h3 by simp_all
  show ?thesis using h1 h2 h3a h3b a b v by (intro conjI)
qed

text \<open>
  C7: for every non-empty list of feature codes with at least one code outside the
  flattened code set of the vocabulary, the result is an error string that lists
  exactly the absent codes in ascending order, joined by a comma and a space, after
  "QID" when one code is absent and "QIDs" when several are, and that ends with
  "not included in lexeme_form.metadata.json".
\<close>

theorem return_correct_form_label_not_included:
  assumes "qs \<noteq> []" and "\<not> set qs \<subseteq> set (lexeme_form_qid_order md)"
  shows "return_correct_form_label md (Some qs) =
     Inr ((if card (set qs - set (lexeme_form_qid_order md)) = 1 then ''QID'' else ''QIDs'')
          @ '' '' @ join '', '' (sorted_list_of_set (set qs - set (lexeme_form_qid_order md)))
          @ '' not included in lexeme_form.metadata.json'')"
proof -
  let ?A = "set qs - set (lexeme_form_qid_order md)"
  let ?xs = "filter (\<lambda>q. q \<notin> set (lexeme_form_qid_order md)) qs"
  have s: "set ?xs = ?A" by auto
  have a: "sort (remdups ?xs) = sorted_list_of_set ?A"
    using sorted_list_of_set_sort_remdups [of ?xs] s by simp
  have "length (sort (remdups ?xs)) = card ?A"
    using s by (simp add: length_remdups_card_conv)
  moreover have "?A \<noteq> {}" using assms(2) by auto
  then have "card ?A \<ge> 1"
    by (simp add: Suc_leI card_gt_0_iff)
  ultimately have b: "(length (sort (remdups ?xs)) > 1) = (card ?A \<noteq> 1)" by linarith
  show ?thesis using assms a b
    by (simp add: return_correct_form_label_def Let_def)
qed

text \<open>Two codes outside the sample vocabulary.\<close>

theorem return_correct_form_label_not_included_witness:
  "[''Q9'', ''Q110786'', ''Q10''] \<noteq> []
   \<and> \<not> set [''Q9'', ''Q110786'', ''Q10''] \<subseteq> set (lexeme_form_qid_order sample_metadata)
   \<and> return_correct_form_label sample_metadata (Some [''Q9'', ''Q110786'', ''Q10''])
       = Inr ''QIDs Q10, Q9 not included in lexeme_form.metadata.json''"
proof -
  have h1: "[''Q9'', ''Q110786'', ''Q10''] \<noteq> []" by simp
  have h2: "\<not> set [''Q9'', ''Q110786'', ''Q10''] \<subseteq> set (lexeme_form_qid_order sample_metadata)"
    by code_simp
  have v: "return_correct_form_label sample_metadata (Some [''Q9'', ''Q110786'', ''Q10''])
       = Inr ''QIDs Q10, Q9 not included in lexeme_form.metadata.json''"
    by code_simp
  have "return_correct_form_label sample_metadata (Some [''Q9'', ''Q110786'', ''Q10''])
     = Inr ((if card (set [''Q9'', ''Q110786'', ''Q10''] - set (lexeme_form_qid_order sample_metadata)) = 1
             then ''QID'' else ''QIDs'')
          @ '' '' @ join '', '' (sorted_list_of_set (set [''Q9'', ''Q110786'', ''Q10'']
                                   - set (lexeme_form_qid_order sample_metadata)))
          @ '' not included in lexeme_form.metadata.json'')"
    by (rule return_correct_form_label_not_included [OF h1 h2])
  then show ?thesis using h1 h2 v by simp
qed

section \<open>Properties of the formatting check\<close>

lemma re_match_two:
  "re_match [One p, One q] s \<noteq> None \<longleftrightarrow> (\<exists>x y r. s = x # y # r \<and> p x \<and> q y)"
  by (auto simp: re_match_def split: list.splits)

lemma re_search_two:
  "re_search [One p, One q] s \<noteq> None
     \<longleftrightarrow> (\<exists>i. Suc i < length s \<and> p (s ! i) \<and> q (s ! Suc i))"
proof (induction s)
  case Nil
  then show ?case by (simp add: re_match_def)
next
  case (Cons c cs)
  have "re_search [One p, One q] (c # cs) \<noteq> None
      \<longleftrightarrow> re_match [One p, One q] (c # cs) \<noteq> None \<or> re_search [One p, One q] cs \<noteq> None"
    by (simp split: option.splits)
  also have "\<dots> \<longleftrightarrow> (\<exists>y r. cs = y # r \<and> p c \<and> q y)
       \<or> (\<exists>i. Suc i < length cs \<and> p (cs ! i) \<and> q (cs ! Suc i))"
    using Cons.IH re_match_two [of p q "c # cs"] by simp
  also have "\<dots> \<longleftrightarrow> (\<exists>i. Suc i < length (c # cs) \<and> p ((c # cs) ! i) \<and> q ((c # cs) ! Suc i))"
  proof
    assume "(\<exists>y r. cs = y # r \<and> p c \<and> q y)
       \<or> (\<exists>i. Suc i < length cs \<and> p (cs ! i) \<and> q (cs ! Suc i))"
    then show "\<exists>i. Suc i < length (c # cs) \<and> p ((c # cs) ! i) \<and> q ((c # cs) ! Suc i)"
    proof
      assume "\<exists>y r. cs = y # r \<and> p c \<and> q y"
      then have "Suc 0 < length (c # cs) \<and> p ((c # cs) ! 0) \<and> q ((c # cs) ! Suc 0)" by auto
      then show ?thesis by blast
    next
      assume "\<exists>i. Suc i < length cs \<and> p (cs ! i) \<and> q (cs ! Suc i)"
      then obtain i where "Suc i < length cs \<and> p (cs ! i) \<and> q (cs ! Suc i)" by blast
      then have "Suc (Suc i) < length (c # cs) \<and> p ((c # cs) ! Suc i) \<and> q ((c # cs) ! Suc (Suc i))"
        by simp
      then show ?thesis by blast
    qed
  next
    assume "\<exists>i. Suc i < length (c # cs) \<and> p ((c # cs) ! i) \<and> q ((c # cs) ! Suc i)"
    then obtain i where i: "Suc i < length (c # cs)" "p ((c # cs) ! i)" "q ((c # cs) ! Suc i)"
      by blast
    show "(\<exists>y r. cs = y # r \<and> p c \<and> q y)
       \<or> (\<exists>i. Suc i < length cs \<and> p (cs ! i) \<and> q (cs ! Suc i))"
    proof (cases i)
      case 0
      then show ?thesis using i by (cases cs) auto
    next
      case (Suc j)
      then show ?thesis using i by auto
    qed
  qed
  finally show ?case .
qed

text \<open>
  C9: \<^verbatim>\<open>check_query_formatting\<close> returns false for every text with a comma right
  after a whitespace character, or with a period or semicolon right after a character
  that is not whitespace, and true for every other text. In particular
  \<^verbatim>\<open>?x ontolex:representation ?y .\<close> is valid, \<^verbatim>\<open>?x ontolex:representation ?y.\<close> is
  not, and \<^verbatim>\<open>?x , ?y\<close> is not.
\<close>

theorem check_query_formatting_iff:
  "(check_query_formatting form_text
      \<longleftrightarrow> \<not> (\<exists>i. Suc i < length form_text \<and> is_space (form_text ! i)
                \<and> form_text ! Suc i = CHR '','')
        \<and> \<not> (\<exists>i. Suc i < length form_text \<and> \<not> is_space (form_text ! i)
                \<and> (form_text ! Suc i = CHR ''.'' \<or> form_text ! Suc i = CHR '';'')))
   \<and> check_query_formatting ''?x ontolex:representation ?y .''
   \<and> \<not> check_query_formatting ''?x ontolex:representation ?y.''
   \<and> \<not> check_query_formatting ''?x , ?y''"
proof -
  have "check_query_formatting form_text
      \<longleftrightarrow> \<not> (\<exists>i. Suc i < length form_text \<and> is_space (form_text ! i)
                \<and> form_text ! Suc i = CHR '','')
        \<and> \<not> (\<exists>i. Suc i < length form_text \<and> \<not> is_space (form_text ! i)
                \<and> (form_text ! Suc i = CHR ''.'' \<or> form_text ! Suc i = CHR '';''))"
    unfolding check_query_formatting_def
    using re_search_two [of is_space "\<lambda>c. c = CHR '',''" form_text]
          re_search_two [of "\<lambda>c. \<not> is_space c" "\<lambda>c. c = CHR ''.'' \<or> c = CHR '';''" form_text]
    by auto
  moreover have "check_query_formatting ''?x ontolex:representation ?y .''"
    by code_simp
  moreover have "\<not> check_query_formatting ''?x ontolex:representation ?y.''"
    by code_simp
  moreover have "\<not> check_query_formatting ''?x , ?y''"
    by code_simp
  ultimately show ?thesis by blast
qed

section \<open>Properties of the header check\<close>

lemma first_mismatch_all:
  "(\<And>j. j < length ps \<Longrightarrow> i + j < length ls \<and> re_match (fst (ps ! j)) (ls ! (i + j)) \<noteq> None)
     \<Longrightarrow> first_mismatch ps i ls = Inr Passed"
proof (induction ps arbitrary: i)
  case Nil
  then show ?case by simp
next
  case (Cons a ps)
  obtain p e where a: "a = (p, e)" by (cases a)
  have h0: "i < length ls \<and> re_match p (ls ! i) \<noteq> None"
    using Cons.prems [of 0] a by simp
  have "\<And>j. j < length ps \<Longrightarrow> Suc i + j < length ls \<and> re_match (fst (ps ! j)) (ls ! (Suc i + j)) \<noteq> None"
    using Cons.prems [of "Suc _"] by simp
  then have "first_mismatch ps (Suc i) ls = Inr Passed" by (rule Cons.IH)
  then show ?case using h0 a by auto
qed

lemma first_mismatch_at:
  "k < length ps \<Longrightarrow> i + k < length ls \<Longrightarrow> re_match (fst (ps ! k)) (ls ! (i + k)) = None
     \<Longrightarrow> (\<And>j. j < k \<Longrightarrow> re_match (fst (ps ! j)) (ls ! (i + j)) \<noteq> None)
     \<Longrightarrow> first_mismatch ps i ls = Inr (Failed (snd (ps ! k) @ '' '' @ strip (ls ! (i + k))))"
proof (induction ps arbitrary: i k)
  case Nil
  then show ?case by simp
next
  case (Cons a ps)
  obtain p e where a: "a = (p, e)" by (cases a)
  show ?case
  proof (cases k)
    case 0
    then show ?thesis using Cons.prems a by simp
  next
    case (Suc k')
    have m0: "re_match p (ls ! i) \<noteq> None"
      using Cons.prems(4) [of 0] Suc a by simp
    have i: "i < length ls" using Cons.prems(2) by simp
    have "first_mismatch ps (Suc i) ls
        = Inr (Failed (snd (ps ! k') @ '' '' @ strip (ls ! (Suc i + k'))))"
    proof (rule Cons.IH)
      show "k' < length ps" using Cons.prems(1) Suc by simp
      show "Suc i + k' < length ls" using Cons.prems(2) Suc by simp
      show "re_match (fst (ps ! k')) (ls ! (Suc i + k')) = None"
        using Cons.prems(3) Suc by simp
      show "\<And>j. j < k' \<Longrightarrow> re_match (fst (ps ! j)) (ls ! (Suc i + j)) \<noteq> None"
        using Cons.prems(4) [of "Suc _"] Suc by simp
    qed
    then show ?thesis using m0 i a Suc by auto
  qed
qed

text \<open>A literal pattern matches at the start of a text exactly when the text starts with it.\<close>

lemma match_items_lit:
  "match_items (lit t) s d g caps \<noteq> None \<longleftrightarrow> starts_with s t"
proof (induction t arbitrary: s d g)
  case Nil
  then show ?case by (simp add: lit_def)
next
  case (Cons a t)
  show ?case
  proof (cases s)
    case Nil
    then show ?thesis by (simp add: lit_def)
  next
    case (Cons x xs)
    have "match_items (lit t) xs (d @ [x]) (map_option (\<lambda>a. a @ [x]) g) caps \<noteq> None
        \<longleftrightarrow> starts_with xs t"
      by (rule Cons.IH)
    then show ?thesis using Cons by (auto simp: lit_def)
  qed
qed

text \<open>
  C2: the header check looks at the first three lines only. A text whose first three
  lines match the three templates passes. A text in which line \<open>k + 1\<close> (one of the
  first three) is the first that does not match its template gives the one message
  "Error in line k+1:" followed by that line without its surrounding whitespace; no
  later line is reported. Matching the first or the third template means starting with
  the fixed line, its line feed included.
\<close>

theorem check_docstring_first_mismatch:
  "(3 \<le> length (splitlines query_text)
      \<and> matches_template 0 (splitlines query_text ! 0)
      \<and> matches_template 1 (splitlines query_text ! 1)
      \<and> matches_template 2 (splitlines query_text ! 2)
    \<longrightarrow> check_docstring query_text = Inr Passed)
   \<and> (k < 3 \<and> k < length (splitlines query_text)
      \<and> \<not> matches_template k (splitlines query_text ! k)
      \<and> (\<forall>j<k. matches_template j (splitlines query_text ! j))
    \<longrightarrow> check_docstring query_text
          = Inr (Failed (''Error in line '' @ [''123'' ! k] @ '': ''
                         @ strip (splitlines query_text ! k))))
   \<and> (matches_template 0 line
        \<longleftrightarrow> starts_with line (''# tool: scribe-data'' @ [CHR 0x0A]))
   \<and> (matches_template 2 line
        \<longleftrightarrow> starts_with line
              (''# Enter this query at https://query.wikidata.org/.'' @ [CHR 0x0A]))"
proof (intro conjI impI)
  let ?ls = "splitlines query_text"
  assume a: "3 \<le> length ?ls \<and> matches_template 0 (?ls ! 0) \<and> matches_template 1 (?ls ! 1)
      \<and> matches_template 2 (?ls ! 2)"
  have "\<And>j. j < length patterns \<Longrightarrow> 0 + j < length ?ls \<and> re_match (fst (patterns ! j)) (?ls ! (0 + j)) \<noteq> None"
  proof -
    fix j assume "j < length patterns"
    then have "j = 0 \<or> j = 1 \<or> j = 2" by (auto simp: patterns_def)
    then show "0 + j < length ?ls \<and> re_match (fst (patterns ! j)) (?ls ! (0 + j)) \<noteq> None"
      using a by (auto simp: matches_template_def)
  qed
  then have "first_mismatch patterns 0 ?ls = Inr Passed" by (rule first_mismatch_all)
  then show "check_docstring query_text = Inr Passed" by (simp add: check_docstring_def)
next
  let ?ls = "splitlines query_text"
  assume a: "k < 3 \<and> k < length ?ls \<and> \<not> matches_template k (?ls ! k)
      \<and> (\<forall>j<k. matches_template j (?ls ! j))"
  have "first_mismatch patterns 0 ?ls
      = Inr (Failed (snd (patterns ! k) @ '' '' @ strip (?ls ! (0 + k))))"
  proof (rule first_mismatch_at)
    show "k < length patterns" using a by (simp add: patterns_def)
    show "0 + k < length ?ls" using a by simp
    show "re_match (fst (patterns ! k)) (?ls ! (0 + k)) = None"
      using a by (simp add: matches_template_def)
    show "\<And>j. j < k \<Longrightarrow> re_match (fst (patterns ! j)) (?ls ! (0 + j)) \<noteq> None"
      using a by (simp add: matches_template_def)
  qed
  moreover have "k = 0 \<or> k = 1 \<or> k = 2" using a by auto
  then have "snd (patterns ! k) = ''Error in line '' @ [''123'' ! k] @ '':''"
    by (auto simp: patterns_def)
  ultimately show "check_docstring query_text
      = Inr (Failed (''Error in line '' @ [''123'' ! k] @ '': '' @ strip (?ls ! k)))"
    by (simp add: check_docstring_def)
next
  show "matches_template 0 line
      \<longleftrightarrow> starts_with line (''# tool: scribe-data'' @ [CHR 0x0A])"
    unfolding matches_template_def patterns_def line1_pattern_def re_match_def
    using match_items_lit [of "''# tool: scribe-data'' @ [CHR 0x0A]" line "[]" None "[]"]
    by simp
next
  show "matches_template 2 line
      \<longleftrightarrow> starts_with line
            (''# Enter this query at https://query.wikidata.org/.'' @ [CHR 0x0A])"
    unfolding matches_template_def patterns_def line3_pattern_def re_match_def
    using match_items_lit
      [of "''# Enter this query at https://query.wikidata.org/.'' @ [CHR 0x0A]" line "[]" None "[]"]
    by simp
qed

text \<open>A header that passes, and one whose second line is the first mismatch.\<close>

theorem check_docstring_first_mismatch_witness:
  "3 \<le> length (splitlines sample_header)
   \<and> matches_template 0 (splitlines sample_header ! 0)
   \<and> matches_template 1 (splitlines sample_header ! 1)
   \<and> matches_template 2 (splitlines sample_header ! 2)
   \<and> check_docstring sample_header = Inr Passed
   \<and> (1::nat) < 3 \<and> 1 < length (splitlines sample_bad_header)
   \<and> \<not> matches_template 1 (splitlines sample_bad_header ! 1)
   \<and> matches_template 0 (splitlines sample_bad_header ! 0)
   \<and> check_docstring sample_bad_header = Inr (Failed ''Error in line 2: #  All German nouns.'')"
proof -
  have sl: "splitlines sample_header =
      [''# tool: scribe-data'' @ [CHR 0x0A],
       ''# All German (Q188) nouns (Q1084) and the given forms.'' @ [CHR 0x0A],
       ''# Enter this query at https://query.wikidata.org/.'' @ [CHR 0x0A]]"
    by code_simp
  have m0: "matches_template 0 (''# tool: scribe-data'' @ [CHR 0x0A])"
    by code_simp
  have m1: "matches_template 1
      (''# All German (Q188) nouns (Q1084) and the given forms.'' @ [CHR 0x0A])"
    by code_simp
  have m2: "matches_template 2
      (''# Enter this query at https://query.wikidata.org/.'' @ [CHR 0x0A])"
    by code_simp
  have good: "3 \<le> length (splitlines sample_header)
      \<and> matches_template 0 (splitlines sample_header ! 0)
      \<and> matches_template 1 (splitlines sample_header ! 1)
      \<and> matches_template 2 (splitlines sample_header ! 2)"
    using sl m0 m1 m2 by simp
  have sl2: "splitlines sample_bad_header =
      [''# tool: scribe-data'' @ [CHR 0x0A], ''#  All German nouns. '' @ [CHR 0x0A]]"
    by code_simp
  have m3: "\<not> matches_template 1 (''#  All German nouns. '' @ [CHR 0x0A])"
    by code_simp
  have st: "strip (''#  All German nouns. '' @ [CHR 0x0A]) = ''#  All German nouns.''"
    by code_simp
  have bad: "(1::nat) < 3 \<and> 1 < length (splitlines sample_bad_header)
      \<and> \<not> matches_template 1 (splitlines sample_bad_header ! 1)
      \<and> (\<forall>j<1. matches_template j (splitlines sample_bad_header ! j))"
    using sl2 m0 m3 by simp
  have "check_docstring sample_header = Inr Passed"
    using good check_docstring_first_mismatch [of sample_header] by blast
  moreover have "check_docstring sample_bad_header
      = Inr (Failed (''Error in line '' @ [''123'' ! 1] @ '': ''
                     @ strip (splitlines sample_bad_header ! 1)))"
    using bad check_docstring_first_mismatch [of sample_bad_header 1] by blast
  then have "check_docstring sample_bad_header
      = Inr (Failed ''Error in line 2: #  All German nouns.'')"
    using sl2 st by simp
  moreover have "matches_template 0 (splitlines sample_bad_header ! 0)"
    using sl2 m0 by simp
  ultimately show ?thesis using good bad by blast
qed

section \<open>Exceptions raised by the checks\<close>

text \<open>
  C6 says that each core check returns a result for every text and never raises. The
  code raises on malformed content: \<^verbatim>\<open>check_docstring\<close> raises \<^verbatim>\<open>IndexError\<close> on a
  text of fewer than three lines whose lines match so far, \<^verbatim>\<open>check_form_label\<close> raises
  \<^verbatim>\<open>UnboundLocalError\<close> on a form block whose representation statement binds no
  variable with a question mark, and \<^verbatim>\<open>extract_form_qids\<close> raises \<^verbatim>\<open>IndexError\<close> on a
  feature statement without \<^verbatim>\<open>wd:\<close>.
\<close>

theorem core_checks_raise:
  "check_docstring [] = Inl IndexError
   \<and> check_docstring (''# tool: scribe-data'' @ [CHR 0x0A]) = Inl IndexError
   \<and> check_form_label other
        ''?lexeme ontolex:lexicalForm ?xForm . ?xForm ontolex:representation x ;''
       = Inl UnboundLocalError
   \<and> extract_form_qids ''wikibase:grammaticalFeature x .'' = Inl IndexError"
  by code_simp

section \<open>Properties of the checks on the variables\<close>

lemma uniq_iff: "(length xs \<noteq> length (remdups xs)) = (\<not> distinct xs)"
  by (metis length_remdups_eq remdups_id_iff_distinct)

lemma distinct_count_le: "distinct xs \<Longrightarrow> count_list xs x \<le> 1"
  by (induction xs) (auto simp: count_list_0_iff)

lemma count_list_filter: "count_list (filter P xs) v = (if P v then count_list xs v else 0)"
  by (induction xs) auto

lemma singleton_list: "distinct ys \<Longrightarrow> set ys = {a} \<Longrightarrow> ys = [a]"
proof (cases ys)
  case Nil
  assume "set ys = {a}" then show ?thesis using Nil by simp
next
  case (Cons y ys')
  assume d: "distinct ys" and s: "set ys = {a}"
  have "y = a" using s Cons by auto
  moreover have "set ys' \<subseteq> {a}" using s Cons by auto
  moreover have "a \<notin> set ys'" using d Cons \<open>y = a\<close> by simp
  ultimately have "ys' = []" by (cases ys') auto
  then show ?thesis using Cons \<open>y = a\<close> by simp
qed

lemma sorted_iteration_ok: "set_iteration_ok sorted_iteration"
  by (simp add: set_iteration_ok_def sorted_iteration_def)

lemma check_vars_duplicate:
  "\<not> distinct s \<Longrightarrow> check_vars iter s w
       = ''Duplicate forms found in SELECT: ''
         @ join '', '' (iter (filter (\<lambda>v. count_list (filter not_lexeme s) v > 1)
                                (filter not_lexeme s)))"
  unfolding check_vars_def Let_def uniq_iff by (rule if_P)

lemma undefined_forms_set:
  "(remdups (filter (\<lambda>v. v \<notin> set w) s) \<noteq> []) = (\<not> set s \<subseteq> set w)"
proof -
  have "set (remdups (filter (\<lambda>v. v \<notin> set w) s)) = set s - set w" by auto
  then show ?thesis by (metis Diff_eq_empty_iff set_empty)
qed

lemma undefined_forms_sorted:
  "sort (remdups (filter (\<lambda>v. v \<notin> set w) s)) = sorted_list_of_set (set s - set w)"
proof -
  have "set (filter (\<lambda>v. v \<notin> set w) s) = set s - set w" by auto
  then show ?thesis
    using sorted_list_of_set_sort_remdups [of "filter (\<lambda>v. v \<notin> set w) s"] by simp
qed

lemma check_vars_undefined:
  assumes "distinct s" and "\<not> set s \<subseteq> set w"
  shows "check_vars iter s w
       = ''Undefined forms found in SELECT: ''
         @ join '', '' (sorted_list_of_set (set s - set w))"
proof -
  have "check_vars iter s w = ''Undefined forms found in SELECT: ''
         @ join '', '' (sort (remdups (filter (\<lambda>v. v \<notin> set w) s)))"
    unfolding check_vars_def Let_def uniq_iff undefined_forms_set
    using assms by simp
  then show ?thesis by (simp only: undefined_forms_sorted)
qed

lemma check_vars_defined:
  assumes "distinct s" and "set s \<subseteq> set w"
  shows "check_vars iter s w =
     (if remdups (filter (\<lambda>v. v \<notin> set s) w) \<noteq> [] then
        ''Defined but unreturned forms found: ''
        @ join '', '' (sort (remdups (filter (\<lambda>v. v \<notin> set s) w)))
      else if filter not_lexeme s \<noteq> filter not_lexeme w then
        ''The order of variables in the SELECT statement does not match their order in the WHERE clause.''
      else [])"
  unfolding check_vars_def Let_def uniq_iff undefined_forms_set
  using assms by simp


lemma validate_forms_Some:
  "select_vars_of query_text = Some sel \<Longrightarrow>
     validate_forms iter query_text
       = check_vars iter sel (insert_service_vars sel (where_vars_of query_text))"
  by (simp add: validate_forms_def)

lemma index_of_nth: "v \<in> set xs \<Longrightarrow> index_of xs v < length xs \<and> xs ! index_of xs v = v"
proof (induction xs)
  case Nil
  then show ?case by simp
next
  case (Cons a xs)
  then show ?case by (cases "a = v") (auto simp: index_of_def)
qed

lemma list_insert_nth: "i \<le> length xs \<Longrightarrow> list_insert i v xs ! i = v"
  by (simp add: list_insert_def nth_append)

lemma list_insert_short: "length xs \<le> i \<Longrightarrow> list_insert i v xs = xs @ [v]"
  by (simp add: list_insert_def)



lemma validate_forms_duplicate_message:
  assumes "select_vars_of query_text = Some sel" "\<not> distinct sel"
  shows "validate_forms iter query_text
      = ''Duplicate forms found in SELECT: '' @ join '', '' (iter (filter (\<lambda>v. count_list (filter not_lexeme sel) v > 1) (filter not_lexeme sel)))"
proof -
  have "validate_forms iter query_text
      = check_vars iter sel (insert_service_vars sel (where_vars_of query_text))"
    by (rule validate_forms_Some [OF assms(1)])
  also have "\<dots> = ''Duplicate forms found in SELECT: '' @ join '', '' (iter (filter (\<lambda>v. count_list (filter not_lexeme sel) v > 1) (filter not_lexeme sel)))"
    by (rule check_vars_duplicate [OF assms(2)])
  finally show ?thesis .
qed

lemma only_singular_duplicated:
  assumes only: "\<forall>v. not_lexeme v \<and> v \<noteq> ''singular'' \<longrightarrow> count_list sel v \<le> 1"
  shows "set (filter (\<lambda>v. count_list (filter not_lexeme sel) v > 1) (filter not_lexeme sel)) \<subseteq> {''singular''}"
proof
  fix v assume "v \<in> set (filter (\<lambda>v. count_list (filter not_lexeme sel) v > 1) (filter not_lexeme sel))"
  then have "not_lexeme v" and "1 < count_list sel v"
    by (simp_all add: count_list_filter split: if_splits)
  then have "v = ''singular''" using only by force
  then show "v \<in> {''singular''}" by simp
qed

lemma iteration_singleton: "set_iteration_ok iter \<Longrightarrow> set dl = {a} \<Longrightarrow> iter dl = [a]"
proof -
  assume ok: "set_iteration_ok iter" and s: "set dl = {a}"
  have "distinct (iter dl)" and "set (iter dl) = {a}"
    using ok s by (simp_all add: set_iteration_ok_def)
  then show ?thesis by (rule singleton_list)
qed

lemma duplicate_message_singular: "v = ''Duplicate forms found in SELECT: '' @ join '', '' (iter dl) \<Longrightarrow> iter dl = [''singular'']
   \<Longrightarrow> v = ''Duplicate forms found in SELECT: singular''"
  by simp


lemma subset_singleton_eq: "A \<subseteq> {a} \<Longrightarrow> a \<in> A \<Longrightarrow> A = {a}"
  by blast

text \<open>
  C3, as the code has it: for every query text whose selection list (after the first two
  variables are dropped) holds "singular" at least twice, the result is the duplicate
  error, whatever the pattern list is, so no order mismatch is reported with it. The
  message is "Duplicate forms found in SELECT: " followed by the duplicated variables
  other than lexeme and lexemeID, joined by a comma and a space in the order of
  iteration of a set; "singular" is one of them, and when it is the only one the message
  is exactly "Duplicate forms found in SELECT: singular".
\<close>

theorem validate_forms_duplicate_priority:
  assumes "select_vars_of query_text = Some sel" and "2 \<le> count_list sel ''singular''"
  shows "validate_forms iter query_text
           = ''Duplicate forms found in SELECT: ''
             @ join '', '' (iter (filter (\<lambda>v. count_list (filter not_lexeme sel) v > 1)
                                    (filter not_lexeme sel)))
         \<and> ''singular'' \<in> set (filter (\<lambda>v. count_list (filter not_lexeme sel) v > 1)
                                    (filter not_lexeme sel))
         \<and> (set_iteration_ok iter
              \<and> (\<forall>v. not_lexeme v \<and> v \<noteq> ''singular'' \<longrightarrow> count_list sel v \<le> 1)
            \<longrightarrow> validate_forms iter query_text = ''Duplicate forms found in SELECT: singular'')"
proof (intro conjI impI)
  have nd: "\<not> distinct sel"
    using assms(2) distinct_count_le [of sel "''singular''"] by auto
  show v: "validate_forms iter query_text
      = ''Duplicate forms found in SELECT: ''
        @ join '', '' (iter (filter (\<lambda>v. count_list (filter not_lexeme sel) v > 1)
                               (filter not_lexeme sel)))"
    using assms(1) nd by (rule validate_forms_duplicate_message)
  have "''singular'' \<in> set sel"
    using assms(2) count_list_0_iff [of sel "''singular''"] by auto
  moreover have "not_lexeme ''singular''" by (simp add: not_lexeme_def)
  ultimately show m: "''singular'' \<in> set (filter (\<lambda>v. count_list (filter not_lexeme sel) v > 1)
                                    (filter not_lexeme sel))"
    using assms(2) by (simp add: count_list_filter)
  assume a: "set_iteration_ok iter
      \<and> (\<forall>v. not_lexeme v \<and> v \<noteq> ''singular'' \<longrightarrow> count_list sel v \<le> 1)"
  then have "set (filter (\<lambda>v. count_list (filter not_lexeme sel) v > 1) (filter not_lexeme sel))
      \<subseteq> {''singular''}"
    using only_singular_duplicated [of sel] by simp
  then have "set (filter (\<lambda>v. count_list (filter not_lexeme sel) v > 1) (filter not_lexeme sel))
      = {''singular''}"
    using m by (rule subset_singleton_eq)
  then have "iter (filter (\<lambda>v. count_list (filter not_lexeme sel) v > 1) (filter not_lexeme sel))
      = [''singular'']"
    using a iteration_singleton by simp
  with v show "validate_forms iter query_text = ''Duplicate forms found in SELECT: singular''"
    by (rule duplicate_message_singular)
qed


text \<open>
  With a second duplicated variable the message need not contain
  "Duplicate forms found in SELECT: singular": under the ascending order of iteration
  "plural" comes first.
\<close>

theorem validate_forms_duplicate_counterexample:
  "select_vars_of dup_query = Some [''singular'', ''singular'', ''plural'', ''plural'']
   \<and> count_list [''singular'', ''singular'', ''plural'', ''plural''] ''singular'' = 2
   \<and> set_iteration_ok sorted_iteration
   \<and> validate_forms sorted_iteration dup_query
       = ''Duplicate forms found in SELECT: plural, singular''
   \<and> \<not> contains (validate_forms sorted_iteration dup_query)
           ''Duplicate forms found in SELECT: singular''"
proof -
  have "select_vars_of dup_query = Some [''singular'', ''singular'', ''plural'', ''plural'']"
    by code_simp
  moreover have "count_list [''singular'', ''singular'', ''plural'', ''plural''] ''singular'' = 2"
    by simp
  moreover have "validate_forms sorted_iteration dup_query
       = ''Duplicate forms found in SELECT: plural, singular''"
    by code_simp
  moreover have "\<not> contains (validate_forms sorted_iteration dup_query)
           ''Duplicate forms found in SELECT: singular''"
    by code_simp
  ultimately show ?thesis using sorted_iteration_ok by (intro conjI)
qed

text \<open>A selection list in which "singular" is the only duplicated variable.\<close>

theorem validate_forms_duplicate_priority_witness:
  "select_vars_of singular_query = Some [''singular'', ''singular'', ''plural'']
   \<and> 2 \<le> count_list [''singular'', ''singular'', ''plural''] ''singular''
   \<and> set_iteration_ok sorted_iteration
   \<and> count_list [''singular'', ''singular'', ''plural''] ''plural'' = 1
   \<and> validate_forms sorted_iteration singular_query
       = ''Duplicate forms found in SELECT: singular''"
proof -
  have h1: "select_vars_of singular_query = Some [''singular'', ''singular'', ''plural'']"
    by code_simp
  have h2: "2 \<le> count_list [''singular'', ''singular'', ''plural''] ''singular''"
    by simp
  have h3: "\<forall>v. not_lexeme v \<and> v \<noteq> ''singular''
          \<longrightarrow> count_list [''singular'', ''singular'', ''plural''] v \<le> 1"
    by auto
  have "validate_forms sorted_iteration singular_query
       = ''Duplicate forms found in SELECT: singular''"
    using validate_forms_duplicate_priority [OF h1 h2, of sorted_iteration]
      sorted_iteration_ok h3 by blast
  moreover have "count_list [''singular'', ''singular'', ''plural''] ''plural'' = 1"
    by simp
  ultimately show ?thesis using h1 h2 sorted_iteration_ok by (intro conjI)
qed

lemma not_undefined_duplicate:
  "\<not> starts_with (''Duplicate forms found in SELECT: '' @ x) ''Undefined forms found in SELECT''"
  by simp

lemma is_undefined:
  "starts_with (''Undefined forms found in SELECT: '' @ x) ''Undefined forms found in SELECT''"
  by simp

lemma not_undefined_rest:
  "\<not> starts_with
       (if a then ''Defined but unreturned forms found: '' @ x
        else if b then ''The order of variables in the SELECT statement does not match their order in the WHERE clause.''
        else [])
       ''Undefined forms found in SELECT''"
  by simp


text \<open>
  C4, as the code has it: the sets of the completeness check are computed before lexeme
  and lexemeID are filtered out. The result starts with "Undefined forms found in SELECT"
  exactly when the text has a selection list without duplicates of which some variable
  is not in the pattern list, and the message then names exactly those variables, in
  ascending order.
\<close>

theorem validate_forms_undefined:
  "(starts_with (validate_forms iter query_text) ''Undefined forms found in SELECT''
      \<longleftrightarrow> (\<exists>sel. select_vars_of query_text = Some sel \<and> distinct sel
             \<and> \<not> set sel \<subseteq> set (insert_service_vars sel (where_vars_of query_text))))
   \<and> (select_vars_of query_text = Some sel \<and> distinct sel
        \<and> \<not> set sel \<subseteq> set (insert_service_vars sel (where_vars_of query_text))
      \<longrightarrow> validate_forms iter query_text
            = ''Undefined forms found in SELECT: ''
              @ join '', '' (sorted_list_of_set
                   (set sel - set (insert_service_vars sel (where_vars_of query_text)))))"
proof (cases "select_vars_of query_text")
  case None
  then show ?thesis by (simp add: validate_forms_def)
next
  case (Some s)
  let ?w = "insert_service_vars s (where_vars_of query_text)"
  have v: "validate_forms iter query_text = check_vars iter s ?w"
    using Some by (rule validate_forms_Some)
  show ?thesis
  proof (cases "distinct s")
    case False
    have "\<not> starts_with (validate_forms iter query_text) ''Undefined forms found in SELECT''"
      unfolding v check_vars_duplicate [OF False] by (rule not_undefined_duplicate)
    then show ?thesis using Some False by auto
  next
    case True
    show ?thesis
    proof (cases "set s \<subseteq> set ?w")
      case False
      have e: "validate_forms iter query_text
            = ''Undefined forms found in SELECT: ''
              @ join '', '' (sorted_list_of_set (set s - set ?w))"
        unfolding v by (rule check_vars_undefined [OF True False])
      have "starts_with (validate_forms iter query_text) ''Undefined forms found in SELECT''"
        unfolding e by (rule is_undefined)
      then show ?thesis using Some True False e by simp
    next
      case sub: True
      have "\<not> starts_with (validate_forms iter query_text) ''Undefined forms found in SELECT''"
        unfolding v check_vars_defined [OF True sub] by (rule not_undefined_rest)
      then show ?thesis using Some sub by auto
    qed
  qed
qed



text \<open>
  A "lexeme" after the first two selection variables is reported as undefined, although
  no variable other than lexeme and lexemeID is missing from the pattern list.
\<close>

theorem validate_forms_undefined_counterexample:
  "select_vars_of lexeme_query = Some [''lexeme'']
   \<and> insert_service_vars [''lexeme''] (where_vars_of lexeme_query) = []
   \<and> validate_forms sorted_iteration lexeme_query = ''Undefined forms found in SELECT: lexeme''"
  by code_simp

text \<open>A selection list whose variable "plural" has no representation statement.\<close>

theorem validate_forms_undefined_witness:
  "select_vars_of undefined_query = Some [''noun'', ''plural'']
   \<and> distinct [''noun'', ''plural'']
   \<and> insert_service_vars [''noun'', ''plural''] (where_vars_of undefined_query) = [''noun'']
   \<and> \<not> set [''noun'', ''plural'']
         \<subseteq> set (insert_service_vars [''noun'', ''plural''] (where_vars_of undefined_query))
   \<and> starts_with (validate_forms sorted_iteration undefined_query)
         ''Undefined forms found in SELECT''
   \<and> validate_forms sorted_iteration undefined_query
       = ''Undefined forms found in SELECT: ''
         @ join '', '' (sorted_list_of_set (set [''noun'', ''plural''] - set [''noun'']))"
proof -
  have h1: "select_vars_of undefined_query = Some [''noun'', ''plural'']"
    by code_simp
  have h2: "distinct [''noun'', ''plural'']"
    by simp
  have w: "insert_service_vars [''noun'', ''plural''] (where_vars_of undefined_query) = [''noun'']"
    by code_simp
  have h3: "\<not> set [''noun'', ''plural'']
         \<subseteq> set (insert_service_vars [''noun'', ''plural''] (where_vars_of undefined_query))"
    unfolding w by simp
  note t = validate_forms_undefined [of sorted_iteration undefined_query "[''noun'', ''plural'']"]
  have s: "starts_with (validate_forms sorted_iteration undefined_query)
         ''Undefined forms found in SELECT''"
    using t h1 h2 h3 by blast
  have "validate_forms sorted_iteration undefined_query
       = ''Undefined forms found in SELECT: ''
         @ join '', '' (sorted_list_of_set (set [''noun'', ''plural'']
             - set (insert_service_vars [''noun'', ''plural''] (where_vars_of undefined_query))))"
    using t h1 h2 h3 by blast
  then have e: "validate_forms sorted_iteration undefined_query
       = ''Undefined forms found in SELECT: ''
         @ join '', '' (sorted_list_of_set (set [''noun'', ''plural''] - set [''noun'']))"
    unfolding w .
  show ?thesis using h1 h2 w h3 s e by (intro conjI)
qed

lemma others_not_selected:
  assumes "\<forall>w \<in> {''case'', ''gender'', ''auxiliaryVerb''}. w \<noteq> var \<longrightarrow> w \<notin> set sel"
  shows "var = ''case'' \<longrightarrow> ''gender'' \<notin> set sel \<and> ''auxiliaryVerb'' \<notin> set sel"
   and "var = ''gender'' \<longrightarrow> ''case'' \<notin> set sel \<and> ''auxiliaryVerb'' \<notin> set sel"
   and "var = ''auxiliaryVerb'' \<longrightarrow> ''case'' \<notin> set sel \<and> ''gender'' \<notin> set sel"
  using assms by simp_all

lemma insert_only_case: "''case'' \<in> set sel \<Longrightarrow> ''gender'' \<notin> set sel \<Longrightarrow> ''auxiliaryVerb'' \<notin> set sel \<Longrightarrow>
   insert_service_vars sel w = list_insert (index_of sel ''case'') ''case'' w"
  by (simp add: insert_service_vars_def insert_var_def)

lemma insert_only_gender: "''case'' \<notin> set sel \<Longrightarrow> ''gender'' \<in> set sel \<Longrightarrow> ''auxiliaryVerb'' \<notin> set sel \<Longrightarrow>
   insert_service_vars sel w = list_insert (index_of sel ''gender'') ''gender'' w"
  by (simp add: insert_service_vars_def insert_var_def)

lemma insert_only_auxiliaryVerb: "''case'' \<notin> set sel \<Longrightarrow> ''gender'' \<notin> set sel \<Longrightarrow> ''auxiliaryVerb'' \<in> set sel \<Longrightarrow>
   insert_service_vars sel w = list_insert (index_of sel ''auxiliaryVerb'') ''auxiliaryVerb'' w"
  by (simp add: insert_service_vars_def insert_var_def)


text \<open>
  When one of case, gender and auxiliaryVerb is in the selection list and the other two
  are not, the pattern list that all checks use is the list read from the WHERE clause
  with that variable inserted by \<^verbatim>\<open>list.insert\<close> at the index of its first
  occurrence in the selection list: it stands at that index when the list is at least
  that long, and at the end when the list is shorter.
\<close>

lemma insert_one_service_var:
  assumes "select_vars_of query_text = Some sel"
    and "var \<in> {''case'', ''gender'', ''auxiliaryVerb''}" and "var \<in> set sel"
    and "\<forall>w \<in> {''case'', ''gender'', ''auxiliaryVerb''}. w \<noteq> var \<longrightarrow> w \<notin> set sel"
  shows "validate_forms iter query_text
           = check_vars iter sel
               (list_insert (index_of sel var) var (where_vars_of query_text))
         \<and> sel ! index_of sel var = var
         \<and> (index_of sel var \<le> length (where_vars_of query_text)
              \<longrightarrow> list_insert (index_of sel var) var (where_vars_of query_text)
                     ! index_of sel var = var)
         \<and> (length (where_vars_of query_text) \<le> index_of sel var
              \<longrightarrow> list_insert (index_of sel var) var (where_vars_of query_text)
                     = where_vars_of query_text @ [var])"
proof -
  let ?i = "index_of sel var"
  let ?w = "where_vars_of query_text"
  from assms(2) consider "var = ''case''" | "var = ''gender''" | "var = ''auxiliaryVerb''"
    by blast
  then have ins: "insert_service_vars sel ?w = list_insert ?i var ?w"
  proof cases
    case 1
    then show ?thesis
      using others_not_selected(1) [OF assms(4)] assms(3) insert_only_case [of sel ?w]
      by simp
  next
    case 2
    then show ?thesis
      using others_not_selected(2) [OF assms(4)] assms(3) insert_only_gender [of sel ?w]
      by simp
  next
    case 3
    then show ?thesis
      using others_not_selected(3) [OF assms(4)] assms(3) insert_only_auxiliaryVerb [of sel ?w]
      by simp
  qed
  have a: "validate_forms iter query_text = check_vars iter sel (list_insert ?i var ?w)"
    unfolding ins [symmetric] using assms(1) by (rule validate_forms_Some)
  have b: "sel ! ?i = var"
    using index_of_nth [OF assms(3)] by simp
  have c: "?i \<le> length ?w \<longrightarrow> list_insert ?i var ?w ! ?i = var"
    by (simp add: list_insert_nth)
  have d: "length ?w \<le> ?i \<longrightarrow> list_insert ?i var ?w = ?w @ [var]"
    by (simp add: list_insert_short)
  show ?thesis using a b c d by (intro conjI)
qed

text \<open>
  C5 says that a service variable is in the pattern list at the index it has in the
  selection list when the order comparison is made: "gender" at index 2, and likewise
  "case" and "auxiliaryVerb" at their indices. The comments of the loop say the same
  ("in the same order as in select_vars", "insert in the corresponding index of
  where_vars"). The loop inserts in the fixed order case, gender, auxiliaryVerb, so a
  later insertion at a smaller index moves an earlier one. With "auxiliaryVerb" selected
  before "gender" at index 2, "gender" is inserted at index 2 and then moved to index 3,
  and the order error is returned. With "gender" selected before "case", "case" ends
  one place too far and the order error is returned, while the same query with "case"
  before "gender" passes, as does a query with "gender" alone.
\<close>

theorem service_vars_out_of_place:
  "select_vars_of shifted_query = Some [''auxiliaryVerb'', ''a'', ''gender'', ''b'']
   \<and> index_of [''auxiliaryVerb'', ''a'', ''gender'', ''b''] ''gender'' = 2
   \<and> where_vars_of shifted_query = [''a'', ''b'']
   \<and> insert_var [''auxiliaryVerb'', ''a'', ''gender'', ''b''] ''gender'' [''a'', ''b'']
       = [''a'', ''b'', ''gender'']
   \<and> insert_service_vars [''auxiliaryVerb'', ''a'', ''gender'', ''b''] [''a'', ''b'']
       = [''auxiliaryVerb'', ''a'', ''b'', ''gender'']
   \<and> validate_forms sorted_iteration shifted_query
       = ''The order of variables in the SELECT statement does not match their order in the WHERE clause.''
   \<and> select_vars_of case_after_query
       = Some [''noun'', ''gender'', ''plural'', ''case'', ''dative'']
   \<and> where_vars_of case_after_query = [''noun'', ''plural'', ''dative'']
   \<and> insert_service_vars [''noun'', ''gender'', ''plural'', ''case'', ''dative'']
         [''noun'', ''plural'', ''dative'']
       = [''noun'', ''gender'', ''plural'', ''dative'', ''case'']
   \<and> validate_forms sorted_iteration case_after_query
       = ''The order of variables in the SELECT statement does not match their order in the WHERE clause.''
   \<and> select_vars_of case_before_query
       = Some [''noun'', ''case'', ''plural'', ''gender'', ''dative'']
   \<and> where_vars_of case_before_query = [''noun'', ''plural'', ''dative'']
   \<and> validate_forms sorted_iteration case_before_query = []
   \<and> select_vars_of gender_query = Some [''noun'', ''plural'', ''gender'']
   \<and> validate_forms sorted_iteration gender_query = []"
  by code_simp

section \<open>Properties of the collection of form blocks\<close>

lemma check_block_key:
  "check_block md other t = Inr (k, v) \<Longrightarrow> k = extract_form_rep_label t"
  by (auto simp: check_block_def Let_def split: sum.splits)

lemma map_of_dict_set:
  "map_of (dict_set d k v) k' = (if k' = k then Some v else map_of d k')"
  by (induction d k v rule: dict_set.induct) auto

lemma keys_dict_set: "fst ` set (dict_set d k v) = insert k (fst ` set d)"
  by (induction d k v rule: dict_set.induct) auto

lemma distinct_dict_set:
  "distinct (map fst d) \<Longrightarrow> distinct (map fst (dict_set d k v))"
proof (induction d k v rule: dict_set.induct)
  case (1 k v)
  then show ?case by simp
next
  case (2 k' v' d k v)
  then show ?case using keys_dict_set [of d k v] by auto
qed

lemma collect_distinct:
  "collect_checks md other bs d0 = Inr d \<Longrightarrow> distinct (map fst d0) \<Longrightarrow> distinct (map fst d)"
proof (induction bs arbitrary: d0)
  case Nil
  then show ?case by simp
next
  case (Cons b bs)
  show ?case
  proof (cases "is_form_block b")
    case False
    then show ?thesis using Cons by simp
  next
    case True
    then obtain k v where kv: "check_block md other b = Inr (k, v)"
      and r: "collect_checks md other bs (dict_set d0 k v) = Inr d"
      using Cons.prems(1) by (auto split: sum.splits)
    show ?thesis
      using Cons.IH [OF r] distinct_dict_set [OF Cons.prems(2)] by simp
  qed
qed

lemma collect_untouched:
  "collect_checks md other bs d0 = Inr d
     \<Longrightarrow> \<forall>b \<in> set bs. is_form_block b \<longrightarrow> extract_form_rep_label b \<noteq> k
     \<Longrightarrow> map_of d k = map_of d0 k"
proof (induction bs arbitrary: d0)
  case Nil
  then show ?case by simp
next
  case (Cons b bs)
  show ?case
  proof (cases "is_form_block b")
    case False
    then show ?thesis using Cons by simp
  next
    case True
    then obtain k' v where kv: "check_block md other b = Inr (k', v)"
      and r: "collect_checks md other bs (dict_set d0 k' v) = Inr d"
      using Cons.prems(1) by (auto split: sum.splits)
    have "k' \<noteq> k" using check_block_key [OF kv] Cons.prems(2) True by simp
    moreover have "map_of d k = map_of (dict_set d0 k' v) k"
      using Cons.IH [OF r] Cons.prems(2) by simp
    ultimately show ?thesis by (simp add: map_of_dict_set)
  qed
qed

lemma collect_last:
  "collect_checks md other (pre @ b # post) d0 = Inr d \<Longrightarrow> is_form_block b
     \<Longrightarrow> \<forall>b' \<in> set post. is_form_block b' \<longrightarrow> extract_form_rep_label b' \<noteq> extract_form_rep_label b
     \<Longrightarrow> \<exists>v. check_block md other b = Inr (extract_form_rep_label b, v)
            \<and> map_of d (extract_form_rep_label b) = Some v"
proof (induction pre arbitrary: d0)
  case Nil
  then obtain k v where kv: "check_block md other b = Inr (k, v)"
    and r: "collect_checks md other post (dict_set d0 k v) = Inr d"
    by (auto split: sum.splits)
  have k: "k = extract_form_rep_label b" by (rule check_block_key [OF kv])
  have "map_of d k = map_of (dict_set d0 k v) k"
    using collect_untouched [OF r] Nil.prems(3) k by simp
  then have "map_of d k = Some v" by (simp add: map_of_dict_set)
  then show ?case using kv k by simp
next
  case (Cons a pre)
  show ?case
  proof (cases "is_form_block a")
    case False
    then have "collect_checks md other (pre @ b # post) d0 = Inr d"
      using Cons.prems(1) by simp
    then show ?thesis using Cons.IH Cons.prems(2,3) by blast
  next
    case True
    then obtain k v where "collect_checks md other (pre @ b # post) (dict_set d0 k v) = Inr d"
      using Cons.prems(1) by (auto split: sum.splits)
    then show ?thesis using Cons.IH Cons.prems(2,3) by blast
  qed
qed

lemma label_problem_key: "e \<in> set (label_problem (k, v)) \<Longrightarrow> fst e = k"
  by (auto simp: label_problem_def split: if_splits)

lemma filter_label_problem_same:
  "filter (\<lambda>e. fst e = k) (label_problem (k, v)) = label_problem (k, v)"
  using label_problem_key by (simp add: filter_id_conv)

lemma filter_label_problem_other:
  "k' \<noteq> k \<Longrightarrow> filter (\<lambda>e. fst e = k) (label_problem (k', v)) = []"
  using label_problem_key by (fastforce simp: filter_empty_conv)

lemma entry_of_key:
  "distinct (map fst d) \<Longrightarrow> map_of d k = Some v \<Longrightarrow> filter (\<lambda>e. fst e = k) d = [(k, v)]"
proof (induction d)
  case Nil
  then show ?case by simp
next
  case (Cons a d)
  obtain k' v' where a: "a = (k', v')" by (cases a)
  show ?case
  proof (cases "k' = k")
    case True
    then have "v' = v" using Cons.prems(2) a by simp
    moreover have "filter (\<lambda>e. fst e = k) d = []"
      using Cons.prems(1) a True by (auto simp: filter_empty_conv)
    ultimately show ?thesis using a True by simp
  next
    case False
    then show ?thesis using Cons a by simp
  qed
qed

lemma report_of_key:
  "filter (\<lambda>e. fst e = k) (incorrect_query_labels d)
     = concat (map label_problem (filter (\<lambda>e. fst e = k) d))"
proof (induction d)
  case Nil
  then show ?case by (simp add: incorrect_query_labels_def)
next
  case (Cons a d)
  obtain k' v' where a: "a = (k', v')" by (cases a)
  show ?case
  proof (cases "k' = k")
    case True
    then show ?thesis using Cons a filter_label_problem_same [of k v']
      by (simp add: incorrect_query_labels_def)
  next
    case False
    then show ?thesis using Cons a filter_label_problem_other [of k' k v']
      by (simp add: incorrect_query_labels_def)
  qed
qed

text \<open>
  C10: the results of the form blocks of a file are kept in a dictionary whose keys are
  the representation labels. When the collection returns, the last form block with a
  given label is the one whose results are kept: the dictionary has exactly one entry
  for that label, it holds the results of that block, and the report lines for that
  label are the ones computed from these results. The results of earlier form blocks
  with the same label are overwritten.
\<close>

theorem query_form_check_dict_last_block:
  assumes "extract_forms_from_sparql query_text = pre @ b # post"
    and "is_form_block b"
    and "\<forall>b' \<in> set post. is_form_block b'
           \<longrightarrow> extract_form_rep_label b' \<noteq> extract_form_rep_label b"
    and "query_form_check_dict md other query_text = Inr d"
  shows "\<exists>v. check_block md other b = Inr (extract_form_rep_label b, v)
           \<and> map_of d (extract_form_rep_label b) = Some v
           \<and> filter (\<lambda>e. fst e = extract_form_rep_label b) d = [(extract_form_rep_label b, v)]
           \<and> filter (\<lambda>e. fst e = extract_form_rep_label b) (incorrect_query_labels d)
               = label_problem (extract_form_rep_label b, v)"
proof -
  let ?k = "extract_form_rep_label b"
  have c: "collect_checks md other (pre @ b # post) [] = Inr d"
    using assms(1,4) by (simp add: query_form_check_dict_def)
  obtain v where kv: "check_block md other b = Inr (?k, v)" and m: "map_of d ?k = Some v"
    using collect_last [OF c assms(2,3)] by blast
  have "distinct (map fst d)" using collect_distinct [OF c] by simp
  then have e: "filter (\<lambda>e. fst e = ?k) d = [(?k, v)]"
    using m by (rule entry_of_key)
  have "filter (\<lambda>e. fst e = ?k) (incorrect_query_labels d) = label_problem (?k, v)"
    unfolding report_of_key e by simp
  then show ?thesis using kv m e by blast
qed


text \<open>
  Two blocks with the label "plural": the first, whose features give "singular", leaves
  no trace in the dictionary.
\<close>

theorem query_form_check_dict_last_block_witness:
  "extract_forms_from_sparql twice_query = [first_block] @ second_block # []
   \<and> is_form_block second_block
   \<and> extract_form_rep_label first_block = extract_form_rep_label second_block
   \<and> check_block sample_metadata no_other first_block
       = Inr (Some ''plural'',
              \<lparr>form_rep_match = True, correct_formatting = True,
               qids = Some [''Q110786''], correct_form_rep_label = ''singular''\<rparr>)
   \<and> query_form_check_dict sample_metadata no_other twice_query
       = Inr [(Some ''plural'',
               \<lparr>form_rep_match = True, correct_formatting = True,
                qids = Some [''Q146786''], correct_form_rep_label = ''plural''\<rparr>)]
   \<and> (\<exists>v. check_block sample_metadata no_other second_block
              = Inr (extract_form_rep_label second_block, v)
          \<and> map_of [(Some ''plural'',
               \<lparr>form_rep_match = True, correct_formatting = True,
                qids = Some [''Q146786''], correct_form_rep_label = ''plural''\<rparr>)]
               (extract_form_rep_label second_block) = Some v)"
proof -
  let ?d = "[(Some ''plural'',
               \<lparr>form_rep_match = True, correct_formatting = True,
                qids = Some [''Q146786''], correct_form_rep_label = ''plural''\<rparr>)]"
  have h1: "extract_forms_from_sparql twice_query = [first_block] @ second_block # []"
    by code_simp
  have h2: "is_form_block second_block"
    by code_simp
  have h3: "\<forall>b' \<in> set []. is_form_block b'
          \<longrightarrow> extract_form_rep_label b' \<noteq> extract_form_rep_label second_block"
    by simp
  have same: "extract_form_rep_label first_block = extract_form_rep_label second_block"
    by code_simp
  have c1: "check_block sample_metadata no_other first_block
       = Inr (Some ''plural'',
              \<lparr>form_rep_match = True, correct_formatting = True,
               qids = Some [''Q110786''], correct_form_rep_label = ''singular''\<rparr>)"
    by code_simp
  have h4: "query_form_check_dict sample_metadata no_other twice_query = Inr ?d"
    by code_simp
  have "\<exists>v. check_block sample_metadata no_other second_block
              = Inr (extract_form_rep_label second_block, v)
          \<and> map_of ?d (extract_form_rep_label second_block) = Some v"
    using query_form_check_dict_last_block [OF h1 h2 h3 h4] by blast
  then show ?thesis using h1 h2 same c1 h4 by (intro conjI)
qed

end
